theory Spec2Isabelle
  imports Main "HOL-Library.Word"
begin

section \<open>The transport session (ktp\_session)\<close>

text \<open>
  The second translation unit of the source creates, destroys and queries a
  \<^verbatim>\<open>ktp_session_t\<close>: \<^verbatim>\<open>ktp_session_new\<close>, \<^verbatim>\<open>ktp_session_free\<close> and
  \<^verbatim>\<open>ktp_session_connected\<close> are embedded here.  Sessions and the network
  objects they own live on the C heap, so the model keeps an explicit store of
  both kinds of object; a pointer is an optional address and \<open>None\<close> is the
  null pointer.
\<close>

type_synonym addr = nat

type_synonym c_int = "32 word"

text \<open>
  Modelled from the spec: the enumeration of connection states is declared in
  a header that is not part of the source at hand.  The source names
  \<^verbatim>\<open>KTP_SESSION_STATE_NOT_AUTHORIZED\<close> and \<^verbatim>\<open>KTP_SESSION_STATE_DISCONNECTED\<close>;
  the spec lists the three states NotAuthorized, Authorized and Disconnected.
\<close>

datatype ktp_session_state =
    KTP_SESSION_STATE_DISCONNECTED
  | KTP_SESSION_STATE_NOT_AUTHORIZED
  | KTP_SESSION_STATE_AUTHORIZED

text \<open>
  Modelled from the spec: \<^verbatim>\<open>faux_net_t\<close> belongs to the faux library.  The
  only thing the source relies on is that it holds the socket descriptor
  handed to \<^verbatim>\<open>faux_net_set_fd\<close>.
\<close>

record faux_net =
  fd :: c_int

record ktp_session =
  state :: ktp_session_state
  net :: "addr option"

record heap =
  sessions :: "addr \<rightharpoonup> ktp_session"
  nets :: "addr \<rightharpoonup> faux_net"

text \<open>
  What can stop an operation before it returns: a failed \<^verbatim>\<open>assert\<close> (when the
  unit is compiled without \<^verbatim>\<open>NDEBUG\<close>) and an access through a pointer that
  does not refer to a live object.
\<close>

datatype fault = Assertion_Failed | Invalid_Pointer

text \<open>
  The two allocations of \<^verbatim>\<open>ktp_session_new\<close> are answered by the
  environment: \<open>zmalloc_result\<close> is what \<^verbatim>\<open>faux_zmalloc(sizeof(*session))\<close>
  returns and \<open>net_new_result\<close> what \<^verbatim>\<open>faux_net_new()\<close> returns, either
  of them null when memory is exhausted.
\<close>

record alloc_env =
  zmalloc_result :: "addr option"
  net_new_result :: "addr option"

text \<open>
  Modelled from the spec: \<^verbatim>\<open>faux_net_set_fd\<close> stores the descriptor in the
  network object; on a null object there is nothing to store into.
\<close>

definition faux_net_set_fd :: "heap \<Rightarrow> addr option \<Rightarrow> c_int \<Rightarrow> heap" where
  "faux_net_set_fd h n sock =
     (case n of
        None \<Rightarrow> h
      | Some a \<Rightarrow> h\<lparr>nets := (nets h)(a \<mapsto> \<lparr>fd = sock\<rparr>)\<rparr>)"

text \<open>
  Modelled from the spec: \<^verbatim>\<open>faux_net_free\<close> releases the network object that
  holds the socket descriptor; a null pointer is accepted.
\<close>

definition faux_net_free :: "heap \<Rightarrow> addr option \<Rightarrow> heap" where
  "faux_net_free h n =
     (case n of
        None \<Rightarrow> h
      | Some a \<Rightarrow> h\<lparr>nets := (nets h)(a := None)\<rparr>)"

text \<open>Modelled from the spec: \<^verbatim>\<open>faux_free\<close> releases the session object itself.\<close>

definition faux_free :: "heap \<Rightarrow> addr \<Rightarrow> heap" where
  "faux_free h p = h\<lparr>sessions := (sessions h)(p := None)\<rparr>"

text \<open>
  \<^verbatim>\<open>ktp_session_new\<close>.  The flag \<open>ndebug\<close> says whether the assertions are
  compiled out.  The result is the returned pointer together with the heap.
\<close>

definition ktp_session_new ::
    "bool \<Rightarrow> alloc_env \<Rightarrow> c_int \<Rightarrow> heap \<Rightarrow> fault + (addr option \<times> heap)" where
  "ktp_session_new ndebug env sock h =
     (if sint sock < 0 then Inr (None, h)
      else
        (case zmalloc_result env of
           None \<Rightarrow> (if ndebug then Inr (None, h) else Inl Assertion_Failed)
         | Some p \<Rightarrow>
             (let h1 = h\<lparr>sessions := (sessions h)(p \<mapsto>
                          \<lparr>state = KTP_SESSION_STATE_NOT_AUTHORIZED,
                           net = net_new_result env\<rparr>)\<rparr>
              in if \<not> ndebug \<and> net_new_result env = None then Inl Assertion_Failed
                 else Inr (Some p, faux_net_set_fd h1 (net_new_result env) sock))))"

text \<open>\<^verbatim>\<open>ktp_session_free\<close>: nothing happens on a null session.\<close>

definition ktp_session_free :: "heap \<Rightarrow> addr option \<Rightarrow> fault + heap" where
  "ktp_session_free h session =
     (case session of
        None \<Rightarrow> Inr h
      | Some p \<Rightarrow>
          (case sessions h p of
             None \<Rightarrow> Inl Invalid_Pointer
           | Some s \<Rightarrow> Inr (faux_free (faux_net_free h (net s)) p)))"

text \<open>\<^verbatim>\<open>ktp_session_connected\<close>.\<close>

definition ktp_session_connected :: "bool \<Rightarrow> heap \<Rightarrow> addr option \<Rightarrow> fault + bool" where
  "ktp_session_connected ndebug h session =
     (case session of
        None \<Rightarrow> (if ndebug then Inr False else Inl Assertion_Failed)
      | Some p \<Rightarrow>
          (case sessions h p of
             None \<Rightarrow> Inl Invalid_Pointer
           | Some s \<Rightarrow>
               (if KTP_SESSION_STATE_DISCONNECTED = state s then Inr False
                else Inr True)))"

section \<open>The console client (\<^verbatim>\<open>main\<close> of clish)\<close>

subsection \<open>The hook table\<close>

datatype callback =
    clish_access_callback
  | clish_script_callback
  | clish_config_callback
  | clish_dryrun_callback

text \<open>
  Modelled from the spec: \<^verbatim>\<open>clish_shell_hooks_t\<close> is declared in a header that
  is not part of the source at hand.  The initialiser of \<^verbatim>\<open>my_hooks\<close> gives the
  seven slots in order (init, access, cmd\_line, script, fini, config, builtin
  list) and the assignment \<^verbatim>\<open>my_hooks.script_fn = ...\<close> names the script slot.
  A null slot is \<open>None\<close>.
\<close>

record clish_shell_hooks =
  init_fn :: "callback option"
  access_fn :: "callback option"
  cmd_line_fn :: "callback option"
  script_fn :: "callback option"
  fini_fn :: "callback option"
  config_fn :: "callback option"
  cmd_list :: "callback option"

definition my_hooks :: clish_shell_hooks where
  "my_hooks =
     \<lparr>init_fn = None,
      access_fn = Some clish_access_callback,
      cmd_line_fn = None,
      script_fn = Some clish_script_callback,
      fini_fn = None,
      config_fn = Some clish_config_callback,
      cmd_list = None\<rparr>"

subsection \<open>The shell object and its input-source stack\<close>

text \<open>
  The output stream \<^verbatim>\<open>outfd\<close>: the process's standard output, \<^verbatim>\<open>/dev/null\<close>,
  or the null pointer that \<^verbatim>\<open>fopen\<close> returns when it fails.
\<close>

datatype ostream = Stdout | Dev_null | Null_stream

text \<open>
  Modelled from the spec: an input source is a readable stream handle (a file
  opened by path, whose path is also its name in diagnostics, or the duplicate
  of standard input) together with its own stop-on-error flag.  \<open>src_lines\<close>
  is what is still to be read from the handle.
\<close>

datatype in_handle = File_handle string | Stdin_dup

record input_source =
  src_handle :: in_handle
  src_lines :: "string list"
  src_stop_on_error :: bool

text \<open>
  Modelled from the spec: the shell object is created by \<^verbatim>\<open>clish_shell_new\<close>,
  which is not part of the source at hand.  It keeps the hook table, the output
  stream and the stop-on-error flag it was created with, and the stack of
  input sources, top first.
\<close>

record clish_shell =
  shell_hooks :: clish_shell_hooks
  shell_out :: ostream
  shell_stop_on_error :: bool
  file_stack :: "input_source list"

definition clish_shell_new :: "clish_shell_hooks \<Rightarrow> ostream \<Rightarrow> bool \<Rightarrow> clish_shell" where
  "clish_shell_new hk out soe =
     \<lparr>shell_hooks = hk, shell_out = out, shell_stop_on_error = soe, file_stack = []\<rparr>"

text \<open>
  What the process finds around it.  The results of the library calls whose
  code is not at hand (\<^verbatim>\<open>clish_shell_new\<close> returning null,
  \<^verbatim>\<open>clish_shell_startup\<close> returning false) are answers of the environment, as
  are the success of \<^verbatim>\<open>fopen("/dev/null", "w")\<close>, the files that can be
  opened and the lines waiting on standard input.
\<close>

record environment =
  getenv_CLISH_PATH :: "string option"
  getenv_CLISH_VIEW :: "string option"
  getenv_CLISH_VIEWID :: "string option"
  KONFD_SOCKET_PATH :: string
  have_locale_h :: bool
  have_langinfo_codeset :: bool
  nl_langinfo_codeset :: string
  fopen_dev_null_succeeds :: bool
  shell_new_succeeds :: bool
  startup_succeeds :: bool
  file_lines :: "string \<Rightarrow> string list option"
  stdin_lines :: "string list"

text \<open>
  Modelled from the spec: \<^verbatim>\<open>clish_shell_push_file\<close> (the spec's pushFile) opens
  the path for reading, fails with CannotOpen if it is unreadable, and
  otherwise pushes the source onto the stack.  \<^verbatim>\<open>main\<close> ignores the result, so
  a failure leaves the shell as it was.
\<close>

definition clish_shell_push_file ::
    "environment \<Rightarrow> clish_shell \<Rightarrow> string \<Rightarrow> bool \<Rightarrow> clish_shell" where
  "clish_shell_push_file env sh fname soe =
     (case file_lines env fname of
        None \<Rightarrow> sh
      | Some ls \<Rightarrow>
          sh\<lparr>file_stack :=
               \<lparr>src_handle = File_handle fname, src_lines = ls, src_stop_on_error = soe\<rparr>
                 # file_stack sh\<rparr>)"

text \<open>
  Modelled from the spec: \<^verbatim>\<open>clish_shell_push_fd\<close> (the spec's pushStream) adopts
  an already-open readable stream; \<^verbatim>\<open>main\<close> passes a duplicate of standard
  input.
\<close>

definition clish_shell_push_fd ::
    "clish_shell \<Rightarrow> string list \<Rightarrow> bool \<Rightarrow> clish_shell" where
  "clish_shell_push_fd sh ls soe =
     sh\<lparr>file_stack :=
          \<lparr>src_handle = Stdin_dup, src_lines = ls, src_stop_on_error = soe\<rparr>
            # file_stack sh\<rparr>"

text \<open>
  Modelled from the spec: popping takes the top source, the one pushed last.
\<close>

definition clish_shell_pop :: "clish_shell \<Rightarrow> (input_source \<times> clish_shell) option" where
  "clish_shell_pop sh =
     (case file_stack sh of
        [] \<Rightarrow> None
      | s # rest \<Rightarrow> Some (s, sh\<lparr>file_stack := rest\<rparr>))"

text \<open>The handles in the order in which repeated popping delivers them.\<close>

function pop_order :: "clish_shell \<Rightarrow> in_handle list" where
  "pop_order sh =
     (case clish_shell_pop sh of
        None \<Rightarrow> []
      | Some (s, sh') \<Rightarrow> src_handle s # pop_order sh')"
  by pat_completeness auto
termination
  by (relation "measure (\<lambda>sh. length (file_stack sh))")
     (auto simp: clish_shell_pop_def split: list.splits)

declare pop_order.simps [simp del]

subsection \<open>The dispatch loop\<close>

text \<open>
  Modelled from the spec: the outcome of one command is Success, Failure
  (recoverable) or Fatal (stops the whole run).
\<close>

datatype command_result = Success | Failure | Fatal

text \<open>
  Modelled from the spec: resolving one line against the scheme and running it
  through the access, script and config hooks is the work of the library and of
  the callbacks.  It is a parameter here: given the hook table and the shell's
  context, a line yields a command result and the next context.
\<close>

type_synonym 'c dispatch = "clish_shell_hooks \<Rightarrow> 'c \<Rightarrow> string \<Rightarrow> command_result \<times> 'c"

text \<open>
  The state of the loop: the shell's context, the aggregate result so far, the
  lines echoed to the process's standard output, and the commands dispatched so
  far, each with the script slot that was in force for it.
\<close>

record 'c loop_state =
  ctx :: 'c
  loop_ok :: bool
  stdout_text :: "string list"
  dispatched :: "(string \<times> callback option) list"

text \<open>
  Modelled from the spec: a consumed line is echoed to the shell's output
  stream; what goes to \<^verbatim>\<open>/dev/null\<close> is lost.  The spec is silent about a
  shell that was handed the null stream; here its echo is lost as well, so
  that such a run gets as far as the source lets it.
\<close>

definition echo_line :: "ostream \<Rightarrow> string \<Rightarrow> 'c loop_state \<Rightarrow> 'c loop_state" where
  "echo_line out l st =
     (case out of
        Stdout \<Rightarrow> st\<lparr>stdout_text := stdout_text st @ [l]\<rparr>
      | Dev_null \<Rightarrow> st
      | Null_stream \<Rightarrow> st)"

text \<open>
  Modelled from the spec: the loop semantics over the input source stack.
  Take the top source and read one line; an exhausted source is popped and the
  next one continues.  On Failure the source is abandoned if its stop-on-error flag
  is set, and the aggregate result becomes failure; otherwise reading goes on
  in the same source.  On Fatal every remaining source is abandoned, the loop
  ends at once and the result is failure.
\<close>

function dispatch_loop ::
    "'c dispatch \<Rightarrow> clish_shell_hooks \<Rightarrow> ostream \<Rightarrow> input_source list \<Rightarrow>
     'c loop_state \<Rightarrow> 'c loop_state" where
  "dispatch_loop exec hk out [] st = st"
| "dispatch_loop exec hk out (s # rest) st =
     (case src_lines s of
        [] \<Rightarrow> dispatch_loop exec hk out rest st
      | l # ls \<Rightarrow>
          (let st1 = echo_line out l st;
               r = fst (exec hk (ctx st1) l);
               st2 = st1\<lparr>ctx := snd (exec hk (ctx st1) l),
                        dispatched := dispatched st1 @ [(l, script_fn hk)]\<rparr>
           in case r of
                Success \<Rightarrow> dispatch_loop exec hk out (s\<lparr>src_lines := ls\<rparr> # rest) st2
              | Failure \<Rightarrow>
                  if src_stop_on_error s
                  then dispatch_loop exec hk out rest (st2\<lparr>loop_ok := False\<rparr>)
                  else dispatch_loop exec hk out (s\<lparr>src_lines := ls\<rparr> # rest) st2
              | Fatal \<Rightarrow> st2\<lparr>loop_ok := False\<rparr>))"
  by pat_completeness auto
termination
  by (relation "measure (\<lambda>(exec, hk, out, stk, st).
                   sum_list (map (\<lambda>s. Suc (length (src_lines s))) stk))")
     auto

text \<open>
  Modelled from the spec: \<^verbatim>\<open>clish_shell_loop\<close> runs the dispatch loop over the
  shell's stack with the shell's hook table and output stream, starting from
  an aggregate result of success.
\<close>

definition clish_shell_loop :: "'c dispatch \<Rightarrow> clish_shell \<Rightarrow> 'c \<Rightarrow> 'c loop_state" where
  "clish_shell_loop exec sh c0 =
     dispatch_loop exec (shell_hooks sh) (shell_out sh) (file_stack sh)
       \<lparr>ctx = c0, loop_ok = True, stdout_text = [], dispatched = []\<rparr>"

text \<open>\<^verbatim>\<open>bool_t\<close> as the C integer that \<^verbatim>\<open>main\<close> stores in \<^verbatim>\<open>result\<close>.\<close>

definition bool_t_to_int :: "bool \<Rightarrow> int" where
  "bool_t_to_int b = (if b then 1 else 0)"

subsection \<open>\<^verbatim>\<open>main\<close>\<close>

text \<open>The local variables of \<^verbatim>\<open>main\<close> that the options set, and the hook table.\<close>

record main_vars =
  socket_path :: string
  lockless :: bool
  stop_on_error :: bool
  interactive :: bool
  quiet :: bool
  utf8 :: bool
  bit8 :: bool
  xml_path :: "string option"
  view :: "string option"
  viewid :: "string option"
  hooks :: clish_shell_hooks

datatype diagnostic =
    Options_u_and_8_together
  | Cannot_run_clish
  | Cannot_startup_clish

text \<open>What \<^verbatim>\<open>main\<close> does to the outside, in order.\<close>

datatype event =
    Sigaction_SIGPIPE_SIG_IGN
  | Setlocale
  | Help int
  | Print_version
  | Stderr diagnostic
  | Fopen_dev_null
  | Shell_new clish_shell_hooks ostream bool
  | Load_scheme "string option"
  | Set_socket string
  | Set_lockfile_null
  | Set_interactive bool
  | Set_startup_view string
  | Set_startup_viewid string
  | Set_utf8 bool
  | Startup
  | Push_file string bool
  | Push_fd_stdin bool
  | Loop clish_shell_hooks
  | Shell_delete
  | Fclose_outfd

definition initial_vars :: "environment \<Rightarrow> main_vars" where
  "initial_vars env =
     \<lparr>socket_path = KONFD_SOCKET_PATH env,
      lockless = False,
      stop_on_error = False,
      interactive = True,
      quiet = False,
      utf8 = False,
      bit8 = False,
      xml_path = getenv_CLISH_PATH env,
      view = getenv_CLISH_VIEW env,
      viewid = getenv_CLISH_VIEWID env,
      hooks = my_hooks\<rparr>"

text \<open>
  The body of the \<^verbatim>\<open>switch\<close>: either the process exits (with the events of
  that branch and the status handed to \<^verbatim>\<open>exit\<close>) or the variables are
  updated.  Every value of \<open>opt\<close> without a case of its own, such as the
  \<^verbatim>\<open>?\<close> that getopt returns for an unknown option, takes the default branch.
\<close>

definition switch_opt :: "char \<Rightarrow> string \<Rightarrow> main_vars \<Rightarrow> (event list \<times> int) + main_vars" where
  "switch_opt opt optarg v =
     (if opt = CHR ''s'' then Inr (v\<lparr>socket_path := optarg\<rparr>)
      else if opt = CHR ''l'' then Inr (v\<lparr>lockless := True\<rparr>)
      else if opt = CHR ''e'' then Inr (v\<lparr>stop_on_error := True\<rparr>)
      else if opt = CHR ''b'' then Inr (v\<lparr>interactive := False\<rparr>)
      else if opt = CHR ''q'' then Inr (v\<lparr>quiet := True\<rparr>)
      else if opt = CHR ''u'' then Inr (v\<lparr>utf8 := True\<rparr>)
      else if opt = CHR ''8'' then Inr (v\<lparr>bit8 := True\<rparr>)
      else if opt = CHR ''d''
        then Inr (v\<lparr>hooks := (hooks v)\<lparr>script_fn := Some clish_dryrun_callback\<rparr>\<rparr>)
      else if opt = CHR ''x'' then Inr (v\<lparr>xml_path := Some optarg\<rparr>)
      else if opt = CHR ''w'' then Inr (v\<lparr>view := Some optarg\<rparr>)
      else if opt = CHR ''i'' then Inr (v\<lparr>viewid := Some optarg\<rparr>)
      else if opt = CHR ''h'' then Inl ([Help 0], 0)
      else if opt = CHR ''v'' then Inl ([Print_version], 0)
      else Inl ([Help (- 1)], - 1))"

text \<open>
  The \<^verbatim>\<open>while (1)\<close> loop around getopt.  Its input is the sequence of option
  characters, each with its \<^verbatim>\<open>optarg\<close>, that getopt returns before it returns
  \<open>-1\<close>.
\<close>

fun getopt_loop :: "(char \<times> string) list \<Rightarrow> main_vars \<Rightarrow> (event list \<times> int) + main_vars" where
  "getopt_loop [] v = Inr v"
| "getopt_loop ((opt, optarg) # rest) v =
     (case switch_opt opt optarg v of
        Inl ex \<Rightarrow> Inl ex
      | Inr v' \<Rightarrow> getopt_loop rest v')"

text \<open>The calls between the creation of the shell and its startup.\<close>

definition configure_shell :: "environment \<Rightarrow> main_vars \<Rightarrow> event list" where
  "configure_shell env v =
     [Load_scheme (xml_path v), Set_socket (socket_path v)]
     @ (if lockless v then [Set_lockfile_null] else [])
     @ (if \<not> interactive v then [Set_interactive (interactive v)] else [])
     @ (case view v of Some w \<Rightarrow> [Set_startup_view w] | None \<Rightarrow> [])
     @ (case viewid v of Some i \<Rightarrow> [Set_startup_viewid i] | None \<Rightarrow> [])
     @ (if utf8 v \<or> bit8 v then [Set_utf8 (utf8 v)]
        else if have_langinfo_codeset env
        then (if nl_langinfo_codeset env = ''UTF-8'' then [Set_utf8 True] else [])
        else [Set_utf8 False])"

text \<open>
  The loop \<^verbatim>\<open>for (i = argc - 1; i >= optind; i--)\<close> over the trailing
  arguments.  \<open>optind\<close> is never negative, so every \<open>i\<close> the loop reaches is
  an index of \<open>argv\<close>.
\<close>

function push_files ::
    "environment \<Rightarrow> string list \<Rightarrow> nat \<Rightarrow> bool \<Rightarrow> int \<Rightarrow>
     clish_shell \<times> event list \<Rightarrow> clish_shell \<times> event list" where
  "push_files env argv optind soe i (sh, t) =
     (if i \<ge> int optind
      then push_files env argv optind soe (i - 1)
             (clish_shell_push_file env sh (argv ! nat i) soe,
              t @ [Push_file (argv ! nat i) soe])
      else (sh, t))"
  by pat_completeness auto
termination
  by (relation "measure (\<lambda>(env, argv, optind, soe, i, st). nat (i + 1 - int optind))")
     auto

declare push_files.simps [simp del]

text \<open>
  The choice between the files and the interactive source; \<open>argc\<close> is the
  length of \<open>argv\<close>.
\<close>

definition push_sources ::
    "environment \<Rightarrow> string list \<Rightarrow> nat \<Rightarrow> bool \<Rightarrow> clish_shell \<Rightarrow> clish_shell \<times> event list" where
  "push_sources env argv optind soe sh =
     (if int optind < int (length argv)
      then push_files env argv optind soe (int (length argv) - 1) (sh, [])
      else (clish_shell_push_fd sh (stdin_lines env) soe, [Push_fd_stdin soe]))"

text \<open>
  The stream that \<^verbatim>\<open>outfd\<close> holds when the shell is created: standard output,
  or with the quiet flag whatever \<^verbatim>\<open>fopen("/dev/null", "w")\<close> returned.  The
  source does not check that result.
\<close>

definition open_outfd :: "environment \<Rightarrow> main_vars \<Rightarrow> ostream" where
  "open_outfd env v =
     (if quiet v
      then (if fopen_dev_null_succeeds env then Dev_null else Null_stream)
      else Stdout)"

text \<open>
  \<^verbatim>\<open>fclose\<close> on the null stream is undefined behaviour in C; the process is
  killed by a segmentation fault and never returns from \<^verbatim>\<open>main\<close>.  A shell
  reports such a process with the status 128 + 11.
\<close>

definition fclose_faults :: "ostream \<Rightarrow> bool" where
  "fclose_faults out = (out = Null_stream)"

definition killed_by_SIGSEGV :: int where
  "killed_by_SIGSEGV = 128 + 11"

text \<open>
  A run of \<^verbatim>\<open>main\<close>: the events in order; the value returned by \<^verbatim>\<open>main\<close> or
  handed to \<^verbatim>\<open>exit\<close>; whether the process was instead killed by the fault in
  \<^verbatim>\<open>fclose\<close>, in which case \<open>exit_code\<close> holds the status of a killed
  process; and, when the run got as far as \<^verbatim>\<open>clish_shell_loop\<close>, the state in
  which the loop ended.
\<close>

record 'c run =
  events :: "event list"
  exit_code :: int
  killed :: bool
  loop_end :: "'c loop_state option"

definition main ::
    "'c dispatch \<Rightarrow> environment \<Rightarrow> 'c \<Rightarrow> (char \<times> string) list \<Rightarrow> string list \<Rightarrow> nat \<Rightarrow> 'c run" where
  "main exec env c0 opts argv optind =
     (let t0 = Sigaction_SIGPIPE_SIG_IGN # (if have_locale_h env then [Setlocale] else [])
      in case getopt_loop opts (initial_vars env) of
           Inl (evs, status) \<Rightarrow>
             \<lparr>events = t0 @ evs, exit_code = status, killed = False, loop_end = None\<rparr>
         | Inr v \<Rightarrow>
             if utf8 v \<and> bit8 v
             then \<lparr>events = t0 @ [Stderr Options_u_and_8_together],
                   exit_code = - 1, killed = False, loop_end = None\<rparr>
             else
               (let outfd = open_outfd env v;
                    t1 = t0 @ (if quiet v then [Fopen_dev_null] else [])
                            @ [Shell_new (hooks v) outfd (stop_on_error v)]
                in if \<not> shell_new_succeeds env
                   then \<lparr>events = t1 @ [Stderr Cannot_run_clish],
                         exit_code = - 1, killed = False, loop_end = None\<rparr>
                   else
                     (let shell = clish_shell_new (hooks v) outfd (stop_on_error v);
                          t2 = t1 @ configure_shell env v @ [Startup]
                      in if \<not> startup_succeeds env
                         then \<lparr>events = t2 @ [Stderr Cannot_startup_clish, Shell_delete],
                               exit_code = - 1, killed = False, loop_end = None\<rparr>
                         else
                           (let pushed = push_sources env argv optind (stop_on_error v) shell;
                                st = clish_shell_loop exec (fst pushed) c0;
                                result = bool_t_to_int (loop_ok st);
                                t3 = t2 @ snd pushed @ [Loop (hooks v), Shell_delete]
                                        @ (if quiet v then [Fclose_outfd] else [])
                            in if quiet v \<and> fclose_faults outfd
                               then \<lparr>events = t3, exit_code = killed_by_SIGSEGV,
                                     killed = True, loop_end = Some st\<rparr>
                               else \<lparr>events = t3,
                                     exit_code = (if result \<noteq> 0 then 0 else - 1),
                                     killed = False, loop_end = Some st\<rparr>))))"

text \<open>
  The exit status that the parent of the process sees: the low eight bits of
  the value returned by \<^verbatim>\<open>main\<close> or handed to \<^verbatim>\<open>exit\<close> (for a killed
  process, of the status a shell reports for it).
\<close>

definition exit_status :: "int \<Rightarrow> int" where
  "exit_status code = code mod 256"

section \<open>Notions used in the statements\<close>

text \<open>The events that push an input source, and the one that creates the shell.\<close>

fun is_push_file :: "event \<Rightarrow> bool" where
  "is_push_file (Push_file a soe) = True"
| "is_push_file e = False"

fun is_push_fd :: "event \<Rightarrow> bool" where
  "is_push_fd (Push_fd_stdin soe) = True"
| "is_push_fd e = False"

fun is_shell_new :: "event \<Rightarrow> bool" where
  "is_shell_new (Shell_new hk out soe) = True"
| "is_shell_new e = False"

fun is_loop :: "event \<Rightarrow> bool" where
  "is_loop (Loop hk) = True"
| "is_loop e = False"

definition is_push :: "event \<Rightarrow> bool" where
  "is_push e = (is_push_file e \<or> is_push_fd e)"

text \<open>The calls to \<^verbatim>\<open>clish_shell_push_file\<close> with their arguments.\<close>

definition file_pushes :: "string list \<Rightarrow> bool \<Rightarrow> event list" where
  "file_pushes args soe = map (\<lambda>a. Push_file a soe) args"

text \<open>The sources that the readable files among the given paths yield, in order.\<close>

fun file_sources :: "environment \<Rightarrow> bool \<Rightarrow> string list \<Rightarrow> input_source list" where
  "file_sources env soe [] = []"
| "file_sources env soe (f # fs) =
     (case file_lines env f of
        None \<Rightarrow> file_sources env soe fs
      | Some ls \<Rightarrow>
          \<lparr>src_handle = File_handle f, src_lines = ls, src_stop_on_error = soe\<rparr>
            # file_sources env soe fs)"

text \<open>The stack with which a fresh shell enters the loop.\<close>

definition pushed_stack ::
    "environment \<Rightarrow> string list \<Rightarrow> nat \<Rightarrow> bool \<Rightarrow> input_source list" where
  "pushed_stack env argv optind soe =
     (if optind < length argv then file_sources env soe (drop optind argv)
      else [\<lparr>src_handle = Stdin_dup, src_lines = stdin_lines env,
             src_stop_on_error = soe\<rparr>])"

text \<open>
  The hook table that a library call sees, for the calls that see one, and the
  tables seen in the course of a run.
\<close>

fun hooks_of_event :: "event \<Rightarrow> clish_shell_hooks option" where
  "hooks_of_event (Shell_new hk out soe) = Some hk"
| "hooks_of_event (Loop hk) = Some hk"
| "hooks_of_event e = None"

definition hook_tables :: "event list \<Rightarrow> clish_shell_hooks list" where
  "hook_tables t = List.map_filter hooks_of_event t"

text \<open>
  The control flow of a run: its events without the opening and closing of
  \<^verbatim>\<open>/dev/null\<close> and without the identity of the output stream handed to the
  shell.
\<close>

fun same_stream :: "event \<Rightarrow> event" where
  "same_stream (Shell_new hk out soe) = Shell_new hk Stdout soe"
| "same_stream e = e"

definition control_flow :: "event list \<Rightarrow> event list" where
  "control_flow t =
     map same_stream (filter (\<lambda>e. e \<noteq> Fopen_dev_null \<and> e \<noteq> Fclose_outfd) t)"

text \<open>
  What the loop has done apart from writing to its output stream: the context
  it reached, its aggregate result and the commands it dispatched.
\<close>

definition observable :: "'c loop_state \<Rightarrow> 'c \<times> bool \<times> (string \<times> callback option) list" where
  "observable st = (ctx st, loop_ok st, dispatched st)"

text \<open>The callback that the options select for the script slot.\<close>

definition selected_script :: "(char \<times> string) list \<Rightarrow> callback" where
  "selected_script opts =
     (if CHR ''d'' \<in> fst ` set opts then clish_dryrun_callback else clish_script_callback)"

text \<open>The options of a run without the quiet flag.\<close>

definition without_quiet :: "(char \<times> string) list \<Rightarrow> (char \<times> string) list" where
  "without_quiet opts = filter (\<lambda>p. fst p \<noteq> CHR ''q'') opts"

text \<open>The option characters that leave the option loop running.\<close>

definition setting_options :: "char set" where
  "setting_options = set ''slebqu8dxwi''"

text \<open>An environment and a dispatcher for concrete runs.\<close>

definition example_env :: environment where
  "example_env =
     \<lparr>getenv_CLISH_PATH = None,
      getenv_CLISH_VIEW = None,
      getenv_CLISH_VIEWID = None,
      KONFD_SOCKET_PATH = ''/tmp/konfd.socket'',
      have_locale_h = True,
      have_langinfo_codeset = True,
      nl_langinfo_codeset = ''UTF-8'',
      fopen_dev_null_succeeds = True,
      shell_new_succeeds = True,
      startup_succeeds = True,
      file_lines = (\<lambda>f. if f = ''a.cli'' then Some [''show'', ''bad'']
                        else if f = ''b.cli'' then Some [''exit'']
                        else if f = ''empty.cli'' then Some []
                        else None),
      stdin_lines = [''show'']\<rparr>"

text \<open>The same environment with \<^verbatim>\<open>/dev/null\<close> impossible to open.\<close>

definition no_dev_null_env :: environment where
  "no_dev_null_env = example_env\<lparr>fopen_dev_null_succeeds := False\<rparr>"

definition example_dispatch :: "unit dispatch" where
  "example_dispatch hk c l = (if l = ''bad'' then (Failure, c) else (Success, c))"

definition example_heap :: heap where
  "example_heap =
     \<lparr>sessions = [7 \<mapsto> \<lparr>state = KTP_SESSION_STATE_AUTHORIZED, net = Some 8\<rparr>],
      nets = [8 \<mapsto> \<lparr>fd = 3\<rparr>]\<rparr>"

definition empty_heap :: heap where
  "empty_heap = \<lparr>sessions = Map.empty, nets = Map.empty\<rparr>"

definition example_alloc :: alloc_env where
  "example_alloc = \<lparr>zmalloc_result = Some 1, net_new_result = Some 2\<rparr>"

section \<open>Properties of the transport session\<close>

text \<open>
  C1 (session creation).  For every socket descriptor: when it is negative,
  \<^verbatim>\<open>ktp_session_new\<close> returns the null pointer and leaves the heap as it was
  (the spec's InvalidHandle failure); when it is not negative and the
  allocator delivers the session object, the pointer to that object is
  returned and the session it points to is in the state NotAuthorized.  The
  only other paths are those on which the allocator has no memory left.
\<close>

theorem ktp_session_new_result:
  "(sint sock < 0 \<longrightarrow> ktp_session_new ndebug env sock h = Inr (None, h)) \<and>
   (0 \<le> sint sock \<longrightarrow> zmalloc_result env = Some p \<longrightarrow>
      (ndebug \<or> net_new_result env \<noteq> None) \<longrightarrow>
      (\<exists>h'. ktp_session_new ndebug env sock h = Inr (Some p, h') \<and>
            map_option state (sessions h' p) = Some KTP_SESSION_STATE_NOT_AUTHORIZED))"
  by (auto simp: ktp_session_new_def faux_net_set_fd_def Let_def split: option.splits)

theorem ktp_session_new_result_witness:
  "sint (- 1 :: c_int) < 0 \<and>
   ktp_session_new False example_alloc (- 1) empty_heap = Inr (None, empty_heap) \<and>
   0 \<le> sint (5 :: c_int) \<and>
   zmalloc_result example_alloc = Some 1 \<and>
   net_new_result example_alloc \<noteq> None \<and>
   (\<exists>h'. ktp_session_new False example_alloc 5 empty_heap = Inr (Some 1, h') \<and>
         map_option state (sessions h' 1) = Some KTP_SESSION_STATE_NOT_AUTHORIZED)"
  using ktp_session_new_result [where sock = "- 1" and ndebug = False and h = empty_heap
          and env = example_alloc and p = 1]
        ktp_session_new_result [where sock = 5 and ndebug = False and h = empty_heap
          and env = example_alloc and p = 1]
  by (simp add: example_alloc_def)

text \<open>
  C4 (connection predicate).  For every live session, \<^verbatim>\<open>ktp_session_connected\<close>
  returns true if and only if the state of the session is not Disconnected:
  true in NotAuthorized and in Authorized, false in Disconnected.
\<close>

theorem ktp_session_connected_iff:
  "sessions h p = Some s \<Longrightarrow>
     ktp_session_connected ndebug h (Some p)
       = Inr (state s \<noteq> KTP_SESSION_STATE_DISCONNECTED) \<and>
     (state s = KTP_SESSION_STATE_NOT_AUTHORIZED
        \<longrightarrow> ktp_session_connected ndebug h (Some p) = Inr True) \<and>
     (state s = KTP_SESSION_STATE_AUTHORIZED
        \<longrightarrow> ktp_session_connected ndebug h (Some p) = Inr True) \<and>
     (state s = KTP_SESSION_STATE_DISCONNECTED
        \<longrightarrow> ktp_session_connected ndebug h (Some p) = Inr False)"
  by (auto simp: ktp_session_connected_def)

theorem ktp_session_connected_iff_witness:
  "sessions example_heap 7 = Some \<lparr>state = KTP_SESSION_STATE_AUTHORIZED, net = Some 8\<rparr> \<and>
   ktp_session_connected False example_heap (Some 7) = Inr True"
  using ktp_session_connected_iff [where h = example_heap and p = 7 and ndebug = False
          and s = "\<lparr>state = KTP_SESSION_STATE_AUTHORIZED, net = Some 8\<rparr>"]
  by (simp add: example_heap_def)

text \<open>
  C7 (session destruction).  \<^verbatim>\<open>ktp_session_free\<close> on the null pointer returns
  normally and changes nothing.  On a live session it returns normally, and
  afterwards neither the session object nor the network object that held its
  socket descriptor is allocated; every other object is untouched.
\<close>

theorem ktp_session_free_releases:
  "ktp_session_free h None = Inr h \<and>
   (sessions h p = Some s \<longrightarrow>
      (\<exists>h'. ktp_session_free h (Some p) = Inr h' \<and>
            sessions h' p = None \<and>
            (\<forall>n. net s = Some n \<longrightarrow> nets h' n = None) \<and>
            (\<forall>q. q \<noteq> p \<longrightarrow> sessions h' q = sessions h q) \<and>
            (\<forall>m. net s \<noteq> Some m \<longrightarrow> nets h' m = nets h m)))"
  by (auto simp: ktp_session_free_def faux_free_def faux_net_free_def split: option.splits)

theorem ktp_session_free_releases_witness:
  "sessions example_heap 7 = Some \<lparr>state = KTP_SESSION_STATE_AUTHORIZED, net = Some 8\<rparr> \<and>
   (\<exists>h'. ktp_session_free example_heap (Some 7) = Inr h' \<and>
         sessions h' 7 = None \<and> nets h' 8 = None)"
proof -
  have live: "sessions example_heap 7
                = Some \<lparr>state = KTP_SESSION_STATE_AUTHORIZED, net = Some 8\<rparr>"
    by (simp add: example_heap_def)
  from ktp_session_free_releases [where h = example_heap and p = 7
         and s = "\<lparr>state = KTP_SESSION_STATE_AUTHORIZED, net = Some 8\<rparr>"] live
  obtain h' where "ktp_session_free example_heap (Some 7) = Inr h'"
    and "sessions h' 7 = None"
    and "\<forall>n. net \<lparr>state = KTP_SESSION_STATE_AUTHORIZED, net = Some 8\<rparr> = Some n
             \<longrightarrow> nets h' n = None"
    by blast
  then show ?thesis using live by auto
qed

section \<open>Auxiliary facts about \<^verbatim>\<open>main\<close>\<close>

lemma switch_opt_Inl:
  "switch_opt opt optarg v = Inl ex \<Longrightarrow>
     opt \<notin> setting_options \<and> ex \<in> {([Help 0], 0), ([Print_version], 0), ([Help (- 1)], - 1)}"
  unfolding switch_opt_def setting_options_def
  by (simp split: if_splits)

lemma switch_opt_Inr:
  "switch_opt opt optarg v = Inr v' \<Longrightarrow>
     utf8 v' = (utf8 v \<or> opt = CHR ''u'') \<and>
     bit8 v' = (bit8 v \<or> opt = CHR ''8'') \<and>
     quiet v' = (quiet v \<or> opt = CHR ''q'') \<and>
     stop_on_error v' = (stop_on_error v \<or> opt = CHR ''e'') \<and>
     hooks v' = (if opt = CHR ''d'' then (hooks v)\<lparr>script_fn := Some clish_dryrun_callback\<rparr>
                 else hooks v)"
  unfolding switch_opt_def
  by (clarsimp split: if_splits)

lemma getopt_loop_Cons_Inr:
  "getopt_loop ((opt, optarg) # opts) v = Inr v' \<Longrightarrow>
     \<exists>v1. switch_opt opt optarg v = Inr v1 \<and> getopt_loop opts v1 = Inr v'"
  by (cases "switch_opt opt optarg v") simp_all

lemma getopt_loop_Inl:
  "getopt_loop opts v = Inl ex \<Longrightarrow>
     \<not> fst ` set opts \<subseteq> setting_options \<and>
     ex \<in> {([Help 0], 0), ([Print_version], 0), ([Help (- 1)], - 1)}"
proof (induction opts arbitrary: v)
  case Nil
  then show ?case by simp
next
  case (Cons a opts)
  obtain opt optarg where a: "a = (opt, optarg)" by (cases a)
  show ?case
  proof (cases "switch_opt opt optarg v")
    case (Inl e)
    with Cons.prems a have "ex = e" by simp
    with switch_opt_Inl [OF Inl] a show ?thesis by simp
  next
    case (Inr v')
    with Cons.prems a have "getopt_loop opts v' = Inl ex" by simp
    from Cons.IH [OF this] show ?thesis by auto
  qed
qed

lemma getopt_loop_utf8:
  "getopt_loop opts v = Inr v' \<Longrightarrow> utf8 v' = (utf8 v \<or> CHR ''u'' \<in> fst ` set opts)"
proof (induction opts arbitrary: v)
  case Nil
  then show ?case by simp
next
  case (Cons a opts)
  obtain opt optarg where a: "a = (opt, optarg)" by (cases a)
  from getopt_loop_Cons_Inr [OF Cons.prems [unfolded a]]
  obtain v1 where s: "switch_opt opt optarg v = Inr v1"
    and r: "getopt_loop opts v1 = Inr v'" by blast
  from switch_opt_Inr [OF s] have "utf8 v1 = (utf8 v \<or> opt = CHR ''u'')" by blast
  with Cons.IH [OF r] a show ?case by auto
qed

lemma getopt_loop_bit8:
  "getopt_loop opts v = Inr v' \<Longrightarrow> bit8 v' = (bit8 v \<or> CHR ''8'' \<in> fst ` set opts)"
proof (induction opts arbitrary: v)
  case Nil
  then show ?case by simp
next
  case (Cons a opts)
  obtain opt optarg where a: "a = (opt, optarg)" by (cases a)
  from getopt_loop_Cons_Inr [OF Cons.prems [unfolded a]]
  obtain v1 where s: "switch_opt opt optarg v = Inr v1"
    and r: "getopt_loop opts v1 = Inr v'" by blast
  from switch_opt_Inr [OF s] have "bit8 v1 = (bit8 v \<or> opt = CHR ''8'')" by blast
  with Cons.IH [OF r] a show ?case by auto
qed

lemma getopt_loop_quiet:
  "getopt_loop opts v = Inr v' \<Longrightarrow> quiet v' = (quiet v \<or> CHR ''q'' \<in> fst ` set opts)"
proof (induction opts arbitrary: v)
  case Nil
  then show ?case by simp
next
  case (Cons a opts)
  obtain opt optarg where a: "a = (opt, optarg)" by (cases a)
  from getopt_loop_Cons_Inr [OF Cons.prems [unfolded a]]
  obtain v1 where s: "switch_opt opt optarg v = Inr v1"
    and r: "getopt_loop opts v1 = Inr v'" by blast
  from switch_opt_Inr [OF s] have "quiet v1 = (quiet v \<or> opt = CHR ''q'')" by blast
  with Cons.IH [OF r] a show ?case by auto
qed

lemma getopt_loop_hooks:
  "getopt_loop opts v = Inr v' \<Longrightarrow>
     hooks v' = (if CHR ''d'' \<in> fst ` set opts
                 then (hooks v)\<lparr>script_fn := Some clish_dryrun_callback\<rparr>
                 else hooks v)"
proof (induction opts arbitrary: v)
  case Nil
  then show ?case by simp
next
  case (Cons a opts)
  obtain opt optarg where a: "a = (opt, optarg)" by (cases a)
  from getopt_loop_Cons_Inr [OF Cons.prems [unfolded a]]
  obtain v1 where s: "switch_opt opt optarg v = Inr v1"
    and r: "getopt_loop opts v1 = Inr v'" by blast
  from switch_opt_Inr [OF s]
  have h1: "hooks v1 = (if opt = CHR ''d''
                        then (hooks v)\<lparr>script_fn := Some clish_dryrun_callback\<rparr>
                        else hooks v)" by blast
  have img: "fst ` set (a # opts) = insert opt (fst ` set opts)" using a by simp
  show ?case unfolding img Cons.IH [OF r] h1 by simp
qed

lemma getopt_loop_stop_on_error:
  "getopt_loop opts v = Inr v' \<Longrightarrow>
     stop_on_error v' = (stop_on_error v \<or> CHR ''e'' \<in> fst ` set opts)"
proof (induction opts arbitrary: v)
  case Nil
  then show ?case by simp
next
  case (Cons a opts)
  obtain opt optarg where a: "a = (opt, optarg)" by (cases a)
  from getopt_loop_Cons_Inr [OF Cons.prems [unfolded a]]
  obtain v1 where s: "switch_opt opt optarg v = Inr v1"
    and r: "getopt_loop opts v1 = Inr v'" by blast
  from switch_opt_Inr [OF s]
  have "stop_on_error v1 = (stop_on_error v \<or> opt = CHR ''e'')" by blast
  with Cons.IH [OF r] a show ?case by auto
qed

lemma file_sources_append:
  "file_sources env soe (xs @ ys) = file_sources env soe xs @ file_sources env soe ys"
  by (induction xs) (auto split: option.splits)

lemma file_sources_handles:
  "map src_handle (file_sources env soe xs)
     = map File_handle (filter (\<lambda>a. file_lines env a \<noteq> None) xs)"
  by (induction xs) (auto split: option.splits)

lemma clish_shell_push_file_stack:
  "clish_shell_push_file env sh a soe
     = sh\<lparr>file_stack := file_sources env soe [a] @ file_stack sh\<rparr>"
  by (simp add: clish_shell_push_file_def split: option.splits)

lemma push_files_eq:
  "optind + k \<le> length argv \<Longrightarrow>
     push_files env argv optind soe (int optind + int k - 1) (sh, t)
       = (sh\<lparr>file_stack := file_sources env soe (take k (drop optind argv)) @ file_stack sh\<rparr>,
          t @ file_pushes (rev (take k (drop optind argv))) soe)"
proof (induction k arbitrary: sh t)
  case 0
  show ?case by (subst push_files.simps) (simp add: file_pushes_def)
next
  case (Suc k)
  let ?a = "argv ! (optind + k)"
  have idx: "nat (int optind + int (Suc k) - 1) = optind + k" by simp
  have dec: "int optind + int (Suc k) - 1 - 1 = int optind + int k - 1" by simp
  have ge: "int optind \<le> int optind + int (Suc k) - 1" by simp
  have tk: "take (Suc k) (drop optind argv) = take k (drop optind argv) @ [?a]"
    using Suc.prems by (simp add: take_Suc_conv_app_nth)
  from Suc.prems have le: "optind + k \<le> length argv" by simp
  have "push_files env argv optind soe (int optind + int (Suc k) - 1) (sh, t)
          = push_files env argv optind soe (int optind + int k - 1)
              (clish_shell_push_file env sh ?a soe, t @ [Push_file ?a soe])"
    by (subst push_files.simps) (simp only: ge idx dec if_True)
  also have "\<dots> = ((clish_shell_push_file env sh ?a soe)
                      \<lparr>file_stack := file_sources env soe (take k (drop optind argv))
                         @ file_stack (clish_shell_push_file env sh ?a soe)\<rparr>,
                   (t @ [Push_file ?a soe]) @ file_pushes (rev (take k (drop optind argv))) soe)"
    by (rule Suc.IH [OF le])
  also have "\<dots> = (sh\<lparr>file_stack := file_sources env soe (take (Suc k) (drop optind argv))
                         @ file_stack sh\<rparr>,
                   t @ file_pushes (rev (take (Suc k) (drop optind argv))) soe)"
    unfolding tk by (simp add: clish_shell_push_file_stack file_sources_append file_pushes_def)
  finally show ?case .
qed

lemma push_sources_files:
  assumes "optind < length argv"
  shows "push_sources env argv optind soe sh
           = (sh\<lparr>file_stack := file_sources env soe (drop optind argv) @ file_stack sh\<rparr>,
              file_pushes (rev (drop optind argv)) soe)"
proof -
  let ?k = "length argv - optind"
  have k: "optind + ?k \<le> length argv" using assms by simp
  have i: "int (length argv) - 1 = int optind + int ?k - 1" using assms by simp
  have tk: "take ?k (drop optind argv) = drop optind argv" by simp
  show ?thesis
    using assms push_files_eq [OF k, of env soe sh "[]"]
    unfolding push_sources_def i tk by simp
qed

lemma push_sources_stdin:
  "\<not> optind < length argv \<Longrightarrow>
     push_sources env argv optind soe sh
       = (clish_shell_push_fd sh (stdin_lines env) soe, [Push_fd_stdin soe])"
  by (simp add: push_sources_def)

lemma pop_order_eq: "pop_order sh = map src_handle (file_stack sh)"
proof (induction "file_stack sh" arbitrary: sh)
  case Nil
  then have "file_stack sh = []" by simp
  then show ?case by (subst pop_order.simps) (simp add: clish_shell_pop_def)
next
  case (Cons s rest)
  from Cons.hyps(2) have fs: "file_stack sh = s # rest" by simp
  have "rest = file_stack (sh\<lparr>file_stack := rest\<rparr>)" by simp
  from Cons.hyps(1) [OF this]
  have "pop_order (sh\<lparr>file_stack := rest\<rparr>) = map src_handle rest" by simp
  then show ?case by (subst pop_order.simps) (simp add: clish_shell_pop_def fs)
qed

text \<open>The four ways a run can end before the loop, and the run that reaches it.\<close>

lemma main_exits:
  "getopt_loop opts (initial_vars env) = Inl (evs, status) \<Longrightarrow>
     main exec env c0 opts argv optind
       = \<lparr>events = (Sigaction_SIGPIPE_SIG_IGN # (if have_locale_h env then [Setlocale] else []))
                    @ evs,
          exit_code = status, killed = False, loop_end = None\<rparr>"
  by (simp add: main_def)

lemma main_u8:
  "getopt_loop opts (initial_vars env) = Inr v \<Longrightarrow> utf8 v \<and> bit8 v \<Longrightarrow>
     main exec env c0 opts argv optind
       = \<lparr>events = (Sigaction_SIGPIPE_SIG_IGN # (if have_locale_h env then [Setlocale] else []))
                    @ [Stderr Options_u_and_8_together],
          exit_code = - 1, killed = False, loop_end = None\<rparr>"
  by (simp add: main_def)

lemma main_no_shell:
  "getopt_loop opts (initial_vars env) = Inr v \<Longrightarrow> \<not> (utf8 v \<and> bit8 v) \<Longrightarrow>
   \<not> shell_new_succeeds env \<Longrightarrow>
     main exec env c0 opts argv optind
       = \<lparr>events = (Sigaction_SIGPIPE_SIG_IGN # (if have_locale_h env then [Setlocale] else []))
                    @ (if quiet v then [Fopen_dev_null] else [])
                    @ [Shell_new (hooks v) (open_outfd env v)
                         (stop_on_error v)]
                    @ [Stderr Cannot_run_clish],
          exit_code = - 1, killed = False, loop_end = None\<rparr>"
  by (simp add: main_def Let_def)

lemma main_no_startup:
  "getopt_loop opts (initial_vars env) = Inr v \<Longrightarrow> \<not> (utf8 v \<and> bit8 v) \<Longrightarrow>
   shell_new_succeeds env \<Longrightarrow> \<not> startup_succeeds env \<Longrightarrow>
     main exec env c0 opts argv optind
       = \<lparr>events = (Sigaction_SIGPIPE_SIG_IGN # (if have_locale_h env then [Setlocale] else []))
                    @ (if quiet v then [Fopen_dev_null] else [])
                    @ [Shell_new (hooks v) (open_outfd env v)
                         (stop_on_error v)]
                    @ configure_shell env v @ [Startup]
                    @ [Stderr Cannot_startup_clish, Shell_delete],
          exit_code = - 1, killed = False, loop_end = None\<rparr>"
  by (simp add: main_def Let_def)

lemma main_loop:
  "getopt_loop opts (initial_vars env) = Inr v \<Longrightarrow> \<not> (utf8 v \<and> bit8 v) \<Longrightarrow>
   shell_new_succeeds env \<Longrightarrow> startup_succeeds env \<Longrightarrow>
     main exec env c0 opts argv optind
       = \<lparr>events = (Sigaction_SIGPIPE_SIG_IGN # (if have_locale_h env then [Setlocale] else []))
                    @ (if quiet v then [Fopen_dev_null] else [])
                    @ [Shell_new (hooks v) (open_outfd env v)
                         (stop_on_error v)]
                    @ configure_shell env v @ [Startup]
                    @ snd (push_sources env argv optind (stop_on_error v)
                             (clish_shell_new (hooks v) (open_outfd env v)
                                (stop_on_error v)))
                    @ [Loop (hooks v), Shell_delete]
                    @ (if quiet v then [Fclose_outfd] else []),
          exit_code =
            (if quiet v \<and> fclose_faults (open_outfd env v) then killed_by_SIGSEGV
             else if loop_ok (clish_shell_loop exec
                   (fst (push_sources env argv optind (stop_on_error v)
                           (clish_shell_new (hooks v) (open_outfd env v)
                              (stop_on_error v)))) c0)
             then 0 else - 1),
          killed = (quiet v \<and> fclose_faults (open_outfd env v)),
          loop_end = Some (clish_shell_loop exec
                   (fst (push_sources env argv optind (stop_on_error v)
                           (clish_shell_new (hooks v) (open_outfd env v)
                              (stop_on_error v)))) c0)\<rparr>"
  by (simp add: main_def Let_def bool_t_to_int_def)

text \<open>Which events the parts of a run contain.\<close>

lemma configure_shell_no_push: "filter is_push (configure_shell env v) = []"
  by (simp add: configure_shell_def is_push_def split: option.splits)

lemma configure_shell_no_loop: "\<not> list_ex is_loop (configure_shell env v)"
  by (simp add: configure_shell_def split: option.splits)

lemma hook_tables_append: "hook_tables (xs @ ys) = hook_tables xs @ hook_tables ys"
  by (simp add: hook_tables_def List.map_filter_def)

lemma hook_tables_Nil: "hook_tables [] = []"
  by (simp add: hook_tables_def List.map_filter_def)

lemma hook_tables_Cons:
  "hook_tables (e # xs)
     = (case hooks_of_event e of None \<Rightarrow> hook_tables xs | Some hk \<Rightarrow> hk # hook_tables xs)"
  by (cases "hooks_of_event e") (simp_all add: hook_tables_def List.map_filter_def)

lemma configure_shell_no_hooks: "hook_tables (configure_shell env v) = []"
  by (simp add: configure_shell_def hook_tables_append hook_tables_Cons hook_tables_Nil
           split: option.splits)

lemma file_pushes_all_push: "filter is_push (file_pushes xs soe) = file_pushes xs soe"
  by (induction xs) (simp_all add: file_pushes_def is_push_def)

lemma file_pushes_no_hooks: "hook_tables (file_pushes xs soe) = []"
  by (induction xs) (simp_all add: file_pushes_def hook_tables_Cons hook_tables_Nil)

lemma push_sources_events:
  "snd (push_sources env argv optind soe sh)
     = (if optind < length argv then file_pushes (rev (drop optind argv)) soe
        else [Push_fd_stdin soe])"
  by (simp add: push_sources_files push_sources_stdin)

lemma early_exit_events:
  "ex \<in> {([Help 0], 0), ([Print_version], 0), ([Help (- 1)], - 1 :: int)} \<Longrightarrow>
     filter is_push (fst ex) = [] \<and> \<not> list_ex is_loop (fst ex) \<and>
     \<not> list_ex is_shell_new (fst ex) \<and> hook_tables (fst ex) = []"
  by (auto simp: is_push_def hook_tables_Cons hook_tables_Nil)

text \<open>
  Every run starts by setting the disposition of \<^verbatim>\<open>SIGPIPE\<close> to
  \<^verbatim>\<open>SIG_IGN\<close>, and \<^verbatim>\<open>main\<close> does not set it again.
\<close>

lemma sigpipe_ignored_first:
  "\<exists>t. events (main exec env c0 opts argv optind) = Sigaction_SIGPIPE_SIG_IGN # t \<and>
       Sigaction_SIGPIPE_SIG_IGN \<notin> set t"
proof (cases "getopt_loop opts (initial_vars env)")
  case (Inl ex)
  obtain evs status where ex: "ex = (evs, status)" by (cases ex)
  from getopt_loop_Inl [OF Inl] have "Sigaction_SIGPIPE_SIG_IGN \<notin> set evs"
    using ex by auto
  then show ?thesis by (simp add: main_exits [OF Inl [unfolded ex]])
next
  case (Inr v)
  have cfg: "Sigaction_SIGPIPE_SIG_IGN \<notin> set (configure_shell env v)"
    by (simp add: configure_shell_def split: option.splits)
  have psh: "\<And>sh. Sigaction_SIGPIPE_SIG_IGN
               \<notin> set (snd (push_sources env argv optind (stop_on_error v) sh))"
    by (auto simp: push_sources_events file_pushes_def)
  show ?thesis
  proof (cases "utf8 v \<and> bit8 v")
    case True
    show ?thesis by (simp add: main_u8 [OF Inr True])
  next
    case u8: False
    show ?thesis
    proof (cases "shell_new_succeeds env")
      case False
      show ?thesis by (simp add: main_no_shell [OF Inr u8 False])
    next
      case sh: True
      show ?thesis
      proof (cases "startup_succeeds env")
        case False
        with cfg show ?thesis by (simp add: main_no_startup [OF Inr u8 sh False])
      next
        case True
        with cfg psh show ?thesis by (simp add: main_loop [OF Inr u8 sh True])
      qed
    qed
  qed
qed

text \<open>The dispatch loop: script slot, output stream and echo.\<close>

lemma echo_line_fields:
  "ctx (echo_line out l st) = ctx st"
  "loop_ok (echo_line out l st) = loop_ok st"
  "dispatched (echo_line out l st) = dispatched st"
  by (simp_all add: echo_line_def split: ostream.splits)

lemma dispatch_loop_script_slot:
  "p \<in> set (dispatched (dispatch_loop exec hk out stk st)) \<Longrightarrow>
     p \<in> set (dispatched st) \<or> snd p = script_fn hk"
proof (induction exec hk out stk st rule: dispatch_loop.induct)
  case (1 exec hk out st)
  then show ?case by simp
next
  case (2 exec hk out s rest st)
  show ?case
  proof (cases "src_lines s")
    case Nil
    with 2 show ?thesis by simp
  next
    case (Cons l ls)
    let ?st1 = "echo_line out l st"
    let ?st2 = "?st1\<lparr>ctx := snd (exec hk (ctx ?st1) l),
                       dispatched := dispatched ?st1 @ [(l, script_fn hk)]\<rparr>"
    have d2: "set (dispatched ?st2) = insert (l, script_fn hk) (set (dispatched st))"
      by (simp add: echo_line_fields)
    show ?thesis
    proof (cases "fst (exec hk (ctx ?st1) l)")
      case Success
      with 2 Cons have "p \<in> set (dispatched ?st2) \<or> snd p = script_fn hk"
        by (simp add: Let_def)
      with d2 show ?thesis by auto
    next
      case Failure
      show ?thesis
      proof (cases "src_stop_on_error s")
        case True
        with 2 Cons Failure
        have "p \<in> set (dispatched (?st2\<lparr>loop_ok := False\<rparr>)) \<or> snd p = script_fn hk"
          by (simp add: Let_def)
        with d2 show ?thesis by auto
      next
        case False
        with 2 Cons Failure have "p \<in> set (dispatched ?st2) \<or> snd p = script_fn hk"
          by (simp add: Let_def)
        with d2 show ?thesis by auto
      qed
    next
      case Fatal
      with 2 Cons have "p \<in> set (dispatched (?st2\<lparr>loop_ok := False\<rparr>))"
        by (simp add: Let_def)
      with d2 show ?thesis by auto
    qed
  qed
qed

lemma dispatch_loop_observable:
  "observable st = observable st' \<Longrightarrow>
     observable (dispatch_loop exec hk out stk st)
       = observable (dispatch_loop exec hk out' stk st')"
proof (induction exec hk out stk st arbitrary: st' rule: dispatch_loop.induct)
  case (1 exec hk out st)
  then show ?case by simp
next
  case (2 exec hk out s rest st)
  from "2.prems" have c: "ctx st' = ctx st" by (simp add: observable_def)
  show ?case
  proof (cases "src_lines s")
    case Nil
    with 2 show ?thesis by simp
  next
    case (Cons l ls)
    let ?st1 = "echo_line out l st"
    let ?st2 = "?st1\<lparr>ctx := snd (exec hk (ctx ?st1) l),
                       dispatched := dispatched ?st1 @ [(l, script_fn hk)]\<rparr>"
    let ?st1' = "echo_line out' l st'"
    let ?st2' = "?st1'\<lparr>ctx := snd (exec hk (ctx ?st1') l),
                       dispatched := dispatched ?st1' @ [(l, script_fn hk)]\<rparr>"
    have r: "fst (exec hk (ctx ?st1') l) = fst (exec hk (ctx ?st1) l)"
      by (simp add: echo_line_fields c)
    have o2: "observable ?st2 = observable ?st2'"
      using "2.prems" by (simp add: observable_def echo_line_fields)
    then have o2f: "observable (?st2\<lparr>loop_ok := False\<rparr>)
                      = observable (?st2'\<lparr>loop_ok := False\<rparr>)"
      by (simp add: observable_def)
    show ?thesis
    proof (cases "fst (exec hk (ctx ?st1) l)")
      case Success
      from "2.IH"(2) [OF Cons refl refl refl Success o2] Cons Success r
      show ?thesis by (simp add: Let_def)
    next
      case Failure
      show ?thesis
      proof (cases "src_stop_on_error s")
        case True
        from "2.IH"(3) [OF Cons refl refl refl Failure True o2f] Cons Failure r True
        show ?thesis by (simp add: Let_def)
      next
        case False
        from "2.IH"(4) [OF Cons refl refl refl Failure False o2] Cons Failure r False
        show ?thesis by (simp add: Let_def)
      qed
    next
      case Fatal
      with Cons r o2f show ?thesis by (simp add: Let_def)
    qed
  qed
qed

lemma dispatch_loop_silent:
  "out \<noteq> Stdout \<Longrightarrow> stdout_text (dispatch_loop exec hk out stk st) = stdout_text st"
proof (induction exec hk out stk st rule: dispatch_loop.induct)
  case (1 exec hk out st)
  then show ?case by simp
next
  case (2 exec hk out s rest st)
  note quiet = "2.prems"
  show ?case
  proof (cases "src_lines s")
    case Nil
    with 2 show ?thesis by simp
  next
    case (Cons l ls)
    have e: "echo_line out l st = st"
      using quiet by (cases out) (simp_all add: echo_line_def)
    let ?st2 = "st\<lparr>ctx := snd (exec hk (ctx st) l),
                     dispatched := dispatched st @ [(l, script_fn hk)]\<rparr>"
    show ?thesis
    proof (cases "fst (exec hk (ctx st) l)")
      case Success
      from "2.IH"(2) [OF Cons refl refl refl _ quiet] Success Cons e
      show ?thesis by (simp add: Let_def)
    next
      case Failure
      show ?thesis
      proof (cases "src_stop_on_error s")
        case True
        from "2.IH"(3) [OF Cons refl refl refl _ True quiet] Failure Cons e True
        show ?thesis by (simp add: Let_def)
      next
        case False
        from "2.IH"(4) [OF Cons refl refl refl _ False quiet] Failure Cons e False
        show ?thesis by (simp add: Let_def)
      qed
    next
      case Fatal
      with Cons e show ?thesis by (simp add: Let_def)
    qed
  qed
qed

lemma dispatch_loop_stdout:
  "stdout_text st = map fst (dispatched st) \<Longrightarrow>
     stdout_text (dispatch_loop exec hk Stdout stk st)
       = map fst (dispatched (dispatch_loop exec hk Stdout stk st))"
proof (induction exec hk "Stdout" stk st rule: dispatch_loop.induct)
  case (1 exec hk st)
  then show ?case by simp
next
  case (2 exec hk s rest st)
  show ?case
  proof (cases "src_lines s")
    case Nil
    with 2 show ?thesis by simp
  next
    case (Cons l ls)
    let ?st1 = "echo_line Stdout l st"
    let ?st2 = "?st1\<lparr>ctx := snd (exec hk (ctx ?st1) l),
                       dispatched := dispatched ?st1 @ [(l, script_fn hk)]\<rparr>"
    have inv: "stdout_text ?st2 = map fst (dispatched ?st2)"
      using "2.prems" by (simp add: echo_line_def)
    then have invf: "stdout_text (?st2\<lparr>loop_ok := False\<rparr>)
                       = map fst (dispatched (?st2\<lparr>loop_ok := False\<rparr>))"
      by simp
    show ?thesis
    proof (cases "fst (exec hk (ctx ?st1) l)")
      case Success
      from "2.hyps"(2) [OF Cons refl refl refl Success inv] Cons Success
      show ?thesis by (simp add: Let_def)
    next
      case Failure
      show ?thesis
      proof (cases "src_stop_on_error s")
        case True
        from "2.hyps"(3) [OF Cons refl refl refl Failure True invf] Cons Failure True
        show ?thesis by (simp add: Let_def)
      next
        case False
        from "2.hyps"(4) [OF Cons refl refl refl Failure False inv] Cons Failure False
        show ?thesis by (simp add: Let_def)
      qed
    next
      case Fatal
      with Cons invf show ?thesis by (simp add: Let_def)
    qed
  qed
qed

text \<open>The shell after the sources have been pushed.\<close>

lemma push_sources_shell:
  "shell_hooks (fst (push_sources env argv optind soe sh)) = shell_hooks sh"
  "shell_out (fst (push_sources env argv optind soe sh)) = shell_out sh"
  "file_stack (fst (push_sources env argv optind soe sh))
     = (if optind < length argv then file_sources env soe (drop optind argv)
        else [\<lparr>src_handle = Stdin_dup, src_lines = stdin_lines env,
               src_stop_on_error = soe\<rparr>]) @ file_stack sh"
  by (cases "optind < length argv";
      simp add: push_sources_files push_sources_stdin clish_shell_push_fd_def)+

lemma clish_shell_loop_pushed:
  "clish_shell_loop exec (fst (push_sources env argv optind soe (clish_shell_new hk out soe'))) c0
     = dispatch_loop exec hk out (pushed_stack env argv optind soe)
         \<lparr>ctx = c0, loop_ok = True, stdout_text = [], dispatched = []\<rparr>"
  by (simp add: clish_shell_loop_def push_sources_shell clish_shell_new_def pushed_stack_def)

lemma hooks_after_options:
  "getopt_loop opts (initial_vars env) = Inr v \<Longrightarrow>
     hooks v = my_hooks\<lparr>script_fn := Some (selected_script opts)\<rparr>"
  using getopt_loop_hooks [of opts "initial_vars env" v]
  by (simp add: initial_vars_def selected_script_def my_hooks_def)

text \<open>The quiet flag and the option loop.\<close>

lemma switch_opt_quiet_update:
  "opt \<noteq> CHR ''q'' \<Longrightarrow>
     switch_opt opt optarg (v\<lparr>quiet := c\<rparr>)
       = map_sum id (\<lambda>v'. v'\<lparr>quiet := c\<rparr>) (switch_opt opt optarg v)"
  by (simp add: switch_opt_def)

lemma switch_opt_q: "switch_opt (CHR ''q'') optarg v = Inr (v\<lparr>quiet := True\<rparr>)"
  by (simp add: switch_opt_def)

lemma getopt_loop_quiet_start:
  "map_sum id (\<lambda>v'. v'\<lparr>quiet := b\<rparr>) (getopt_loop opts (v\<lparr>quiet := c\<rparr>))
     = map_sum id (\<lambda>v'. v'\<lparr>quiet := b\<rparr>) (getopt_loop opts v)"
proof (induction opts arbitrary: v)
  case Nil
  show ?case by simp
next
  case (Cons a opts)
  obtain opt optarg where a: "a = (opt, optarg)" by (cases a)
  show ?case
  proof (cases "opt = CHR ''q''")
    case True
    then show ?thesis by (simp add: a switch_opt_q)
  next
    case False
    show ?thesis
    proof (cases "switch_opt opt optarg v")
      case (Inl ex)
      then show ?thesis by (simp add: a switch_opt_quiet_update [OF False])
    next
      case (Inr v1)
      with Cons.IH [of v1] show ?thesis
        by (simp add: a switch_opt_quiet_update [OF False])
    qed
  qed
qed

lemma getopt_loop_without_quiet:
  "getopt_loop (without_quiet opts) (v\<lparr>quiet := b\<rparr>)
     = map_sum id (\<lambda>v'. v'\<lparr>quiet := b\<rparr>) (getopt_loop opts v)"
proof (induction opts arbitrary: v)
  case Nil
  show ?case by (simp add: without_quiet_def)
next
  case (Cons a opts)
  obtain opt optarg where a: "a = (opt, optarg)" by (cases a)
  show ?case
  proof (cases "opt = CHR ''q''")
    case True
    have "getopt_loop (without_quiet (a # opts)) (v\<lparr>quiet := b\<rparr>)
            = getopt_loop (without_quiet opts) (v\<lparr>quiet := b\<rparr>)"
      by (simp add: a True without_quiet_def)
    also have "\<dots> = map_sum id (\<lambda>v'. v'\<lparr>quiet := b\<rparr>) (getopt_loop opts v)"
      by (rule Cons.IH)
    also have "\<dots> = map_sum id (\<lambda>v'. v'\<lparr>quiet := b\<rparr>)
                       (getopt_loop opts (v\<lparr>quiet := True\<rparr>))"
      by (rule getopt_loop_quiet_start [symmetric])
    also have "\<dots> = map_sum id (\<lambda>v'. v'\<lparr>quiet := b\<rparr>) (getopt_loop (a # opts) v)"
      by (simp add: a True switch_opt_q)
    finally show ?thesis .
  next
    case False
    have w: "without_quiet ((opt, optarg) # opts) = (opt, optarg) # without_quiet opts"
      by (simp add: False without_quiet_def)
    show ?thesis
    proof (cases "switch_opt opt optarg v")
      case (Inl ex)
      then show ?thesis by (simp add: a w switch_opt_quiet_update [OF False])
    next
      case (Inr v1)
      with Cons.IH [of v1] show ?thesis
        by (simp add: a w switch_opt_quiet_update [OF False])
    qed
  qed
qed

lemma getopt_loop_without_quiet_initial:
  "getopt_loop (without_quiet opts) (initial_vars env)
     = map_sum id (\<lambda>v'. v'\<lparr>quiet := False\<rparr>) (getopt_loop opts (initial_vars env))"
proof -
  have "(initial_vars env)\<lparr>quiet := False\<rparr> = initial_vars env"
    by (simp add: initial_vars_def)
  with getopt_loop_without_quiet [where opts = opts and v = "initial_vars env" and b = False]
  show ?thesis by simp
qed

lemma configure_shell_quiet:
  "configure_shell env (v\<lparr>quiet := b\<rparr>) = configure_shell env v"
  by (simp add: configure_shell_def)

lemma control_flow_append: "control_flow (xs @ ys) = control_flow xs @ control_flow ys"
  by (simp add: control_flow_def)

lemma control_flow_Cons:
  "control_flow (e # xs)
     = (if e \<noteq> Fopen_dev_null \<and> e \<noteq> Fclose_outfd then same_stream e # control_flow xs
        else control_flow xs)"
  by (simp add: control_flow_def)

lemma control_flow_Nil: "control_flow [] = []"
  by (simp add: control_flow_def)

text \<open>The output stream, and the one place where the run can be killed.\<close>

lemma open_outfd_not_quiet: "open_outfd env (v\<lparr>quiet := False\<rparr>) = Stdout"
  by (simp add: open_outfd_def)

lemma fclose_faults_open_outfd:
  "(quiet v \<and> fclose_faults (open_outfd env v)) = (quiet v \<and> \<not> fopen_dev_null_succeeds env)"
  by (simp add: open_outfd_def fclose_faults_def)

lemma open_outfd_opened:
  "\<not> (quiet v \<and> \<not> fopen_dev_null_succeeds env) \<Longrightarrow>
     open_outfd env v = (if quiet v then Dev_null else Stdout)"
  by (simp add: open_outfd_def)

lemma open_outfd_silent: "quiet v \<Longrightarrow> open_outfd env v \<noteq> Stdout"
  by (simp add: open_outfd_def)

text \<open>
  A run is killed exactly when it reaches the dispatch loop with the quiet
  flag set and \<^verbatim>\<open>/dev/null\<close> could not be opened.
\<close>

lemma killed_iff:
  "killed (main exec env c0 opts argv optind)
     = (list_ex is_loop (events (main exec env c0 opts argv optind)) \<and>
        CHR ''q'' \<in> fst ` set opts \<and> \<not> fopen_dev_null_succeeds env)"
proof (cases "getopt_loop opts (initial_vars env)")
  case (Inl ex)
  obtain evs status where ex: "ex = (evs, status)" by (cases ex)
  from getopt_loop_Inl [OF Inl] early_exit_events [of ex]
  have "\<not> list_ex is_loop evs" using ex by simp
  then show ?thesis
    by (simp add: main_exits [OF Inl [unfolded ex]] split: if_splits)
next
  case (Inr v)
  from getopt_loop_quiet [OF Inr]
  have q: "quiet v = (CHR ''q'' \<in> fst ` set opts)" by (simp add: initial_vars_def)
  show ?thesis
  proof (cases "utf8 v \<and> bit8 v")
    case True
    show ?thesis by (simp add: main_u8 [OF Inr True] split: if_splits)
  next
    case u8: False
    show ?thesis
    proof (cases "shell_new_succeeds env")
      case False
      show ?thesis by (simp add: main_no_shell [OF Inr u8 False] split: if_splits)
    next
      case sh: True
      show ?thesis
      proof (cases "startup_succeeds env")
        case False
        with configure_shell_no_loop [of env v]
        show ?thesis by (simp add: main_no_startup [OF Inr u8 sh False] split: if_splits)
      next
        case True
        show ?thesis
          by (simp add: main_loop [OF Inr u8 sh True] open_outfd_def fclose_faults_def q)
      qed
    qed
  qed
qed

text \<open>
  In every run that reaches the dispatch loop with an open output stream
  (without the quiet flag, or with \<^verbatim>\<open>/dev/null\<close> opened), the exit status is
  decided by the loop itself: it is 0 when the loop, run with the selected
  hook table over the pushed sources, reports success, and 255 when it reports
  failure.
\<close>

lemma exit_status_follows_loop:
  assumes reach: "list_ex is_loop (events (main exec env c0 opts argv optind))"
    and opened: "CHR ''q'' \<in> fst ` set opts \<longrightarrow> fopen_dev_null_succeeds env"
  shows "\<not> killed (main exec env c0 opts argv optind) \<and>
         loop_end (main exec env c0 opts argv optind)
           = Some (dispatch_loop exec (my_hooks\<lparr>script_fn := Some (selected_script opts)\<rparr>)
                     (if CHR ''q'' \<in> fst ` set opts then Dev_null else Stdout)
                     (pushed_stack env argv optind (CHR ''e'' \<in> fst ` set opts))
                     \<lparr>ctx = c0, loop_ok = True, stdout_text = [], dispatched = []\<rparr>) \<and>
         exit_status (exit_code (main exec env c0 opts argv optind))
           = (if loop_ok (dispatch_loop exec
                     (my_hooks\<lparr>script_fn := Some (selected_script opts)\<rparr>)
                     (if CHR ''q'' \<in> fst ` set opts then Dev_null else Stdout)
                     (pushed_stack env argv optind (CHR ''e'' \<in> fst ` set opts))
                     \<lparr>ctx = c0, loop_ok = True, stdout_text = [], dispatched = []\<rparr>)
              then 0 else 255)"
proof (cases "getopt_loop opts (initial_vars env)")
  case (Inl ex)
  obtain evs status where ex: "ex = (evs, status)" by (cases ex)
  from getopt_loop_Inl [OF Inl] early_exit_events [of ex]
  have "\<not> list_ex is_loop evs" using ex by simp
  with reach show ?thesis
    by (simp add: main_exits [OF Inl [unfolded ex]] split: if_splits)
next
  case (Inr v)
  from getopt_loop_quiet [OF Inr]
  have q: "quiet v = (CHR ''q'' \<in> fst ` set opts)" by (simp add: initial_vars_def)
  from getopt_loop_stop_on_error [OF Inr]
  have soe: "stop_on_error v = (CHR ''e'' \<in> fst ` set opts)" by (simp add: initial_vars_def)
  note hk = hooks_after_options [OF Inr]
  show ?thesis
  proof (cases "utf8 v \<and> bit8 v")
    case True
    with reach show ?thesis by (simp add: main_u8 [OF Inr True] split: if_splits)
  next
    case u8: False
    show ?thesis
    proof (cases "shell_new_succeeds env")
      case False
      with reach show ?thesis by (simp add: main_no_shell [OF Inr u8 False] split: if_splits)
    next
      case sh: True
      show ?thesis
      proof (cases "startup_succeeds env")
        case False
        with reach configure_shell_no_loop [of env v]
        show ?thesis by (simp add: main_no_startup [OF Inr u8 sh False] split: if_splits)
      next
        case True
        note run = main_loop [OF Inr u8 sh True, of exec c0 argv optind,
                     unfolded clish_shell_loop_pushed fclose_faults_open_outfd]
        from opened q have opened': "\<not> (quiet v \<and> \<not> fopen_dev_null_succeeds env)"
          by simp
        then have dead: "(quiet v \<and> \<not> fopen_dev_null_succeeds env) = False" by simp
        have out: "open_outfd env v = (if CHR ''q'' \<in> fst ` set opts then Dev_null else Stdout)"
          using open_outfd_opened [OF opened'] q by simp
        show ?thesis
          unfolding run dead out hk soe
          by (simp add: exit_status_def del: dispatch_loop.simps)
      qed
    qed
  qed
qed

text \<open>
  What the quiet flag leaves alone.  Take any run and the run that differs
  from it only in that the quiet flag is not given.  The two runs have the
  same control flow (the same events apart from the opening and closing of
  \<^verbatim>\<open>/dev/null\<close> and the stream handed to the shell); they both reach the
  dispatch loop or both do not, and if they do the loop dispatches the same
  commands, reaches the same context and has the same aggregate result.
  Without the quiet flag every consumed line is echoed to standard output,
  with it nothing is.  When \<^verbatim>\<open>/dev/null\<close> can be opened the two runs also end
  alike.
\<close>

lemma quiet_noninterference_on_open_stream:
  "control_flow (events (main exec env c0 opts argv optind))
     = control_flow (events (main exec env c0 (without_quiet opts) argv optind)) \<and>
   map_option observable (loop_end (main exec env c0 opts argv optind))
     = map_option observable (loop_end (main exec env c0 (without_quiet opts) argv optind)) \<and>
   (\<forall>st. loop_end (main exec env c0 (without_quiet opts) argv optind) = Some st \<longrightarrow>
        stdout_text st = map fst (dispatched st)) \<and>
   (\<forall>st. CHR ''q'' \<in> fst ` set opts \<longrightarrow>
        loop_end (main exec env c0 opts argv optind) = Some st \<longrightarrow> stdout_text st = []) \<and>
   (fopen_dev_null_succeeds env \<longrightarrow>
      exit_code (main exec env c0 opts argv optind)
        = exit_code (main exec env c0 (without_quiet opts) argv optind) \<and>
      killed (main exec env c0 opts argv optind)
        = killed (main exec env c0 (without_quiet opts) argv optind))"
proof (cases "getopt_loop opts (initial_vars env)")
  case (Inl ex)
  obtain evs status where ex: "ex = (evs, status)" by (cases ex)
  have Inl': "getopt_loop (without_quiet opts) (initial_vars env) = Inl (evs, status)"
    by (simp add: getopt_loop_without_quiet_initial Inl ex)
  show ?thesis
    by (simp add: main_exits [OF Inl [unfolded ex]] main_exits [OF Inl'])
next
  case (Inr v)
  let ?v' = "v\<lparr>quiet := False\<rparr>"
  have Inr': "getopt_loop (without_quiet opts) (initial_vars env) = Inr ?v'"
    by (simp add: getopt_loop_without_quiet_initial Inr)
  from getopt_loop_quiet [OF Inr]
  have q: "quiet v = (CHR ''q'' \<in> fst ` set opts)" by (simp add: initial_vars_def)
  show ?thesis
  proof (cases "utf8 v \<and> bit8 v")
    case True
    then have True': "utf8 ?v' \<and> bit8 ?v'" by simp
    show ?thesis
      by (simp add: main_u8 [OF Inr True] main_u8 [OF Inr' True'])
  next
    case u8: False
    then have u8': "\<not> (utf8 ?v' \<and> bit8 ?v')" by simp
    show ?thesis
    proof (cases "shell_new_succeeds env")
      case False
      show ?thesis
        by (simp add: main_no_shell [OF Inr u8 False] main_no_shell [OF Inr' u8' False]
              control_flow_append control_flow_Cons control_flow_Nil)
    next
      case sh: True
      show ?thesis
      proof (cases "startup_succeeds env")
        case False
        show ?thesis
          by (simp add: main_no_startup [OF Inr u8 sh False]
                main_no_startup [OF Inr' u8' sh False] configure_shell_quiet
                control_flow_append control_flow_Cons control_flow_Nil)
      next
        case True
        let ?stack = "pushed_stack env argv optind (stop_on_error v)"
        let ?init = "\<lparr>ctx = c0, loop_ok = True, stdout_text = [], dispatched = []\<rparr>"
        let ?st = "dispatch_loop exec (hooks v) (open_outfd env v) ?stack ?init"
        let ?st' = "dispatch_loop exec (hooks v) Stdout ?stack ?init"
        note run = main_loop [OF Inr u8 sh True, of exec c0 argv optind,
                     unfolded clish_shell_loop_pushed push_sources_events
                       fclose_faults_open_outfd]
        note run' = main_loop [OF Inr' u8' sh True, of exec c0 argv optind,
                     unfolded clish_shell_loop_pushed push_sources_events
                       fclose_faults_open_outfd open_outfd_not_quiet, simplified]
        have obs: "observable ?st = observable ?st'"
          by (rule dispatch_loop_observable) simp
        then have ok: "loop_ok ?st = loop_ok ?st'"
          by (simp add: observable_def del: dispatch_loop.simps)
        have code: "fopen_dev_null_succeeds env \<longrightarrow>
                      exit_code (main exec env c0 opts argv optind)
                        = exit_code (main exec env c0 (without_quiet opts) argv optind) \<and>
                      killed (main exec env c0 opts argv optind)
                        = killed (main exec env c0 (without_quiet opts) argv optind)"
          unfolding run run' using ok by (simp del: dispatch_loop.simps)
        have flow: "control_flow (events (main exec env c0 opts argv optind))
                = control_flow (events (main exec env c0 (without_quiet opts) argv optind))"
          unfolding run run'
          by (simp add: configure_shell_quiet control_flow_append control_flow_Cons
                control_flow_Nil del: dispatch_loop.simps)
        have same: "map_option observable (loop_end (main exec env c0 opts argv optind))
                = map_option observable
                    (loop_end (main exec env c0 (without_quiet opts) argv optind))"
          unfolding run run' using obs by (simp del: dispatch_loop.simps)
        have "stdout_text ?st' = map fst (dispatched ?st')"
          by (rule dispatch_loop_stdout) simp
        then have echo: "\<forall>st. loop_end (main exec env c0 (without_quiet opts) argv optind)
                              = Some st \<longrightarrow> stdout_text st = map fst (dispatched st)"
          unfolding run' by (simp del: dispatch_loop.simps)
        have "quiet v \<longrightarrow> stdout_text ?st = []"
          by (simp add: dispatch_loop_silent open_outfd_silent del: dispatch_loop.simps)
        then have silent: "\<forall>st. CHR ''q'' \<in> fst ` set opts \<longrightarrow>
                  loop_end (main exec env c0 opts argv optind) = Some st \<longrightarrow>
                  stdout_text st = []"
          unfolding run using q by (simp del: dispatch_loop.simps)
        from code flow same echo silent show ?thesis by blast
      qed
    qed
  qed
qed

section \<open>Properties of \<^verbatim>\<open>main\<close>\<close>

text \<open>
  C2 (file source ordering).  When there are trailing file arguments
  \<open>A1, ..., An\<close> (the elements of \<open>argv\<close> from \<open>optind\<close> on), \<^verbatim>\<open>main\<close> calls
  \<^verbatim>\<open>clish_shell_push_file\<close> on them in reverse order, \<open>An\<close> first and \<open>A1\<close>
  last.  Popping the stack afterwards delivers the files that could be opened
  in their left-to-right order, ahead of whatever was on the stack before; on
  a fresh shell with every file readable the pop order is exactly
  \<open>A1, ..., An\<close>.
\<close>

theorem file_sources_pushed_in_reverse:
  "optind < length argv \<Longrightarrow>
     snd (push_sources env argv optind soe sh) = file_pushes (rev (drop optind argv)) soe \<and>
     pop_order (fst (push_sources env argv optind soe sh))
       = map File_handle (filter (\<lambda>a. file_lines env a \<noteq> None) (drop optind argv))
         @ pop_order sh \<and>
     ((\<forall>a \<in> set (drop optind argv). file_lines env a \<noteq> None) \<longrightarrow>
        pop_order (fst (push_sources env argv optind soe (clish_shell_new hk out soe')))
          = map File_handle (drop optind argv))"
  by (simp add: push_sources_files pop_order_eq file_sources_handles clish_shell_new_def)

theorem file_sources_pushed_in_reverse_witness:
  "(1 :: nat) < length [''clish'', ''a.cli'', ''b.cli''] \<and>
   file_lines example_env ''a.cli'' \<noteq> None \<and>
   file_lines example_env ''b.cli'' \<noteq> None \<and>
   snd (push_sources example_env [''clish'', ''a.cli'', ''b.cli''] 1 False
          (clish_shell_new my_hooks Stdout False))
     = [Push_file ''b.cli'' False, Push_file ''a.cli'' False] \<and>
   pop_order (fst (push_sources example_env [''clish'', ''a.cli'', ''b.cli''] 1 False
          (clish_shell_new my_hooks Stdout False)))
     = [File_handle ''a.cli'', File_handle ''b.cli'']"
proof -
  have files: "\<forall>a \<in> set (drop 1 [''clish'', ''a.cli'', ''b.cli'']). file_lines example_env a \<noteq> None"
    by (simp add: example_env_def)
  have n: "(1 :: nat) < length [''clish'', ''a.cli'', ''b.cli'']" by simp
  from file_sources_pushed_in_reverse [OF n, of example_env False
         "clish_shell_new my_hooks Stdout False" my_hooks Stdout False] files
  show ?thesis by (simp add: file_pushes_def pop_order_eq clish_shell_new_def)
qed

text \<open>
  C3 (process exit disposition).  The claim: in every run that reaches the
  dispatch loop the exit status is 0 if and only if the aggregate result of
  the loop is success.  The source does so wherever the output stream is open
  (\<open>exit_status_follows_loop\<close>), but with the quiet flag it closes \<^verbatim>\<open>outfd\<close>
  before it returns, without ever having checked what \<^verbatim>\<open>fopen\<close> returned.
  In the run of \<^verbatim>\<open>clish -q empty.cli\<close> where \<^verbatim>\<open>/dev/null\<close> cannot be opened
  and the script is empty, the loop is reached, has no line to echo and
  reports success; the last call of the run is the \<^verbatim>\<open>fclose\<close> of the null
  stream, and the process is killed there: its status is 139, not 0.
\<close>

theorem exit_disposition_lost_in_fclose:
  "list_ex is_loop
     (events (main example_dispatch no_dev_null_env () [(CHR ''q'', [])]
                [''clish'', ''-q'', ''empty.cli''] 2)) \<and>
   map_option loop_ok
     (loop_end (main example_dispatch no_dev_null_env () [(CHR ''q'', [])]
                  [''clish'', ''-q'', ''empty.cli''] 2)) = Some True \<and>
   last (events (main example_dispatch no_dev_null_env () [(CHR ''q'', [])]
                   [''clish'', ''-q'', ''empty.cli''] 2)) = Fclose_outfd \<and>
   killed (main example_dispatch no_dev_null_env () [(CHR ''q'', [])]
             [''clish'', ''-q'', ''empty.cli''] 2) \<and>
   exit_status (exit_code (main example_dispatch no_dev_null_env () [(CHR ''q'', [])]
                             [''clish'', ''-q'', ''empty.cli''] 2)) = 139"
proof -
  let ?v = "(initial_vars no_dev_null_env)\<lparr>quiet := True\<rparr>"
  have parsed: "getopt_loop [(CHR ''q'', [])] (initial_vars no_dev_null_env) = Inr ?v"
    by (simp add: switch_opt_def)
  have u8: "\<not> (utf8 ?v \<and> bit8 ?v)" by (simp add: initial_vars_def)
  have sh: "shell_new_succeeds no_dev_null_env" and st: "startup_succeeds no_dev_null_env"
    by (simp_all add: no_dev_null_env_def example_env_def)
  have nofd: "\<not> fopen_dev_null_succeeds no_dev_null_env"
    by (simp add: no_dev_null_env_def)
  have qv: "quiet ?v" and soe: "\<not> stop_on_error ?v" and hk: "hooks ?v = my_hooks"
    by (simp_all add: initial_vars_def)
  have stack: "pushed_stack no_dev_null_env [''clish'', ''-q'', ''empty.cli''] 2 False
                 = [\<lparr>src_handle = File_handle ''empty.cli'', src_lines = [],
                     src_stop_on_error = False\<rparr>]"
    by (simp add: pushed_stack_def no_dev_null_env_def example_env_def)
  have ok: "loop_ok (dispatch_loop example_dispatch my_hooks (open_outfd no_dev_null_env ?v)
                       [\<lparr>src_handle = File_handle ''empty.cli'', src_lines = [],
                         src_stop_on_error = False\<rparr>]
                       \<lparr>ctx = (), loop_ok = True, stdout_text = [], dispatched = []\<rparr>)"
    by (simp add: example_dispatch_def echo_line_fields Let_def)
  note run = main_loop [OF parsed u8 sh st, of example_dispatch "()"
                 "[''clish'', ''-q'', ''empty.cli'']" 2,
                 unfolded clish_shell_loop_pushed fclose_faults_open_outfd]
  show ?thesis
    unfolding run using qv soe hk nofd stack ok
    by (simp add: killed_by_SIGSEGV_def exit_status_def del: dispatch_loop.simps)
qed

text \<open>
  C5 (source exclusivity), as amended.  A run that ends before the dispatch
  loop pushes no input source at all.  In every run that reaches the loop,
  exactly one kind of source is pushed: with at least one trailing file
  argument, the pushes are the calls of \<^verbatim>\<open>clish_shell_push_file\<close> on the
  arguments and nothing else, so no interactive source is created; with no
  file argument, the only push is the one of the duplicate of standard input.
\<close>

theorem source_exclusivity:
  "(\<not> list_ex is_loop (events (main exec env c0 opts argv optind)) \<longrightarrow>
      filter is_push (events (main exec env c0 opts argv optind)) = []) \<and>
   (list_ex is_loop (events (main exec env c0 opts argv optind)) \<longrightarrow>
      (optind < length argv \<longrightarrow>
         filter is_push (events (main exec env c0 opts argv optind))
           = file_pushes (rev (drop optind argv)) (CHR ''e'' \<in> fst ` set opts)) \<and>
      (\<not> optind < length argv \<longrightarrow>
         filter is_push (events (main exec env c0 opts argv optind))
           = [Push_fd_stdin (CHR ''e'' \<in> fst ` set opts)]))"
proof (cases "getopt_loop opts (initial_vars env)")
  case (Inl ex)
  obtain evs status where ex: "ex = (evs, status)" by (cases ex)
  from getopt_loop_Inl [OF Inl] early_exit_events [of ex]
  have "\<not> list_ex is_loop evs" and "filter is_push evs = []" using ex by simp_all
  then show ?thesis
    by (simp add: main_exits [OF Inl [unfolded ex]] is_push_def)
next
  case (Inr v)
  from getopt_loop_stop_on_error [OF Inr]
  have soe: "stop_on_error v = (CHR ''e'' \<in> fst ` set opts)"
    by (simp add: initial_vars_def)
  show ?thesis
  proof (cases "utf8 v \<and> bit8 v")
    case True
    show ?thesis by (simp add: main_u8 [OF Inr True] is_push_def)
  next
    case u8: False
    show ?thesis
    proof (cases "shell_new_succeeds env")
      case False
      show ?thesis by (simp add: main_no_shell [OF Inr u8 False] is_push_def)
    next
      case sh: True
      show ?thesis
      proof (cases "startup_succeeds env")
        case False
        have "filter is_push (events (main exec env c0 opts argv optind)) = []"
          by (simp add: main_no_startup [OF Inr u8 sh False] configure_shell_no_push is_push_def)
        moreover have "\<not> list_ex is_loop (events (main exec env c0 opts argv optind))"
          using configure_shell_no_loop [of env v]
          by (simp add: main_no_startup [OF Inr u8 sh False])
        ultimately show ?thesis by simp
      next
        case True
        have reach: "list_ex is_loop (events (main exec env c0 opts argv optind))"
          by (simp add: main_loop [OF Inr u8 sh True])
        have "filter is_push (events (main exec env c0 opts argv optind))
                = filter is_push (snd (push_sources env argv optind (stop_on_error v)
                             (clish_shell_new (hooks v) (open_outfd env v)
                                (stop_on_error v))))"
          by (simp add: main_loop [OF Inr u8 sh True] configure_shell_no_push is_push_def)
        also have "\<dots> = (if optind < length argv
                          then file_pushes (rev (drop optind argv)) (stop_on_error v)
                          else [Push_fd_stdin (stop_on_error v)])"
          unfolding push_sources_events
          by (simp add: file_pushes_all_push) (simp add: is_push_def)
        finally show ?thesis using reach soe by simp
      qed
    qed
  qed
qed

theorem source_exclusivity_witness:
  "list_ex is_loop (events (main example_dispatch example_env () []
                              [''clish'', ''a.cli'', ''b.cli''] 1)) \<and>
   (1 :: nat) < length [''clish'', ''a.cli'', ''b.cli''] \<and>
   filter is_push (events (main example_dispatch example_env () []
                             [''clish'', ''a.cli'', ''b.cli''] 1))
     = [Push_file ''b.cli'' False, Push_file ''a.cli'' False] \<and>
   list_ex is_loop (events (main example_dispatch example_env () [] [''clish''] 1)) \<and>
   \<not> (1 :: nat) < length [''clish''] \<and>
   filter is_push (events (main example_dispatch example_env () [] [''clish''] 1))
     = [Push_fd_stdin False] \<and>
   \<not> list_ex is_loop (events (main example_dispatch example_env () [(CHR ''v'', [])]
                                [''clish'', ''-v''] 2)) \<and>
   filter is_push (events (main example_dispatch example_env () [(CHR ''v'', [])]
                             [''clish'', ''-v''] 2)) = []"
proof -
  have parsed: "getopt_loop [] (initial_vars example_env) = Inr (initial_vars example_env)"
    by simp
  have u8: "\<not> (utf8 (initial_vars example_env) \<and> bit8 (initial_vars example_env))"
    by (simp add: initial_vars_def)
  have sh: "shell_new_succeeds example_env" and st: "startup_succeeds example_env"
    by (simp_all add: example_env_def)
  have r1: "list_ex is_loop (events (main example_dispatch example_env () []
                              [''clish'', ''a.cli'', ''b.cli''] 1))"
    by (simp add: main_loop [OF parsed u8 sh st])
  have r2: "list_ex is_loop (events (main example_dispatch example_env () [] [''clish''] 1))"
    by (simp add: main_loop [OF parsed u8 sh st])
  have r3: "\<not> list_ex is_loop (events (main example_dispatch example_env () [(CHR ''v'', [])]
                                [''clish'', ''-v''] 2))"
    by (simp add: main_def switch_opt_def)
  from source_exclusivity [of example_dispatch example_env "()" "[]"
         "[''clish'', ''a.cli'', ''b.cli'']" 1]
       source_exclusivity [of example_dispatch example_env "()" "[]" "[''clish'']" 1]
       source_exclusivity [of example_dispatch example_env "()" "[(CHR ''v'', [])]"
         "[''clish'', ''-v'']" 2]
       r1 r2 r3
  show ?thesis by (simp add: file_pushes_def)
qed

text \<open>
  The claim as stated speaks of every run.  The run of \<^verbatim>\<open>clish -h\<close> has no
  file argument, prints the help text and exits: it pushes no interactive
  source.
\<close>

theorem source_exclusivity_counterexample:
  "\<not> (2 :: nat) < length [''clish'', ''-h''] \<and>
   filter is_push_fd (events (main example_dispatch example_env () [(CHR ''h'', [])]
                                [''clish'', ''-h''] 2)) = [] \<and>
   events (main example_dispatch example_env () [(CHR ''h'', [])] [''clish'', ''-h''] 2)
     = [Sigaction_SIGPIPE_SIG_IGN, Setlocale, Help 0] \<and>
   exit_code (main example_dispatch example_env () [(CHR ''h'', [])] [''clish'', ''-h''] 2) = 0"
  by (simp add: main_def switch_opt_def example_env_def)

text \<open>
  C10 (encoding-flag exclusivity), as amended.  In every run in which both
  \<^verbatim>\<open>-u\<close> and \<^verbatim>\<open>-8\<close> are supplied, no shell instance is created, no input
  source is pushed and the dispatch loop is not reached.  When moreover the
  option loop runs to its end (every option is one of those that only set a
  variable), validation fails: the run consists of the start-up events
  followed by the error message about \<^verbatim>\<open>-u\<close> and \<^verbatim>\<open>-8\<close>, and the exit status
  is 255.
\<close>

theorem encoding_flags_exclusive:
  "CHR ''u'' \<in> fst ` set opts \<Longrightarrow> CHR ''8'' \<in> fst ` set opts \<Longrightarrow>
     \<not> list_ex is_shell_new (events (main exec env c0 opts argv optind)) \<and>
     filter is_push (events (main exec env c0 opts argv optind)) = [] \<and>
     \<not> list_ex is_loop (events (main exec env c0 opts argv optind)) \<and>
     loop_end (main exec env c0 opts argv optind) = None \<and>
     (fst ` set opts \<subseteq> setting_options \<longrightarrow>
        events (main exec env c0 opts argv optind)
          = (Sigaction_SIGPIPE_SIG_IGN # (if have_locale_h env then [Setlocale] else []))
            @ [Stderr Options_u_and_8_together] \<and>
        exit_code (main exec env c0 opts argv optind) = - 1 \<and>
        exit_status (exit_code (main exec env c0 opts argv optind)) = 255)"
proof (cases "getopt_loop opts (initial_vars env)")
  case (Inl ex)
  obtain evs status where ex: "ex = (evs, status)" by (cases ex)
  from getopt_loop_Inl [OF Inl] early_exit_events [of ex]
  have "\<not> list_ex is_loop evs" and "filter is_push evs = []"
    and "\<not> list_ex is_shell_new evs" and "\<not> fst ` set opts \<subseteq> setting_options"
    using ex by simp_all
  then show ?thesis
    by (simp add: main_exits [OF Inl [unfolded ex]] is_push_def)
next
  case (Inr v)
  assume "CHR ''u'' \<in> fst ` set opts" and "CHR ''8'' \<in> fst ` set opts"
  with getopt_loop_utf8 [OF Inr] getopt_loop_bit8 [OF Inr]
  have both: "utf8 v \<and> bit8 v" by simp
  show ?thesis
    by (simp add: main_u8 [OF Inr both] is_push_def exit_status_def)
qed

theorem encoding_flags_exclusive_witness:
  "CHR ''u'' \<in> fst ` set [(CHR ''u'', []), (CHR ''8'', [])] \<and>
   CHR ''8'' \<in> fst ` set [(CHR ''u'', []), (CHR ''8'', [])] \<and>
   fst ` set [(CHR ''u'', []), (CHR ''8'', [])] \<subseteq> setting_options \<and>
   events (main example_dispatch example_env () [(CHR ''u'', []), (CHR ''8'', [])]
             [''clish'', ''-u'', ''-8''] 3)
     = [Sigaction_SIGPIPE_SIG_IGN, Setlocale, Stderr Options_u_and_8_together] \<and>
   exit_status (exit_code (main example_dispatch example_env ()
                             [(CHR ''u'', []), (CHR ''8'', [])]
                             [''clish'', ''-u'', ''-8''] 3)) = 255"
proof -
  have u: "CHR ''u'' \<in> fst ` set [(CHR ''u'', []), (CHR ''8'', [])]" by simp
  have e: "CHR ''8'' \<in> fst ` set [(CHR ''u'', []), (CHR ''8'', [])]" by simp
  have s: "fst ` set [(CHR ''u'', []), (CHR ''8'', [])] \<subseteq> setting_options"
    by (simp add: setting_options_def)
  have loc: "have_locale_h example_env" by (simp add: example_env_def)
  from encoding_flags_exclusive [OF u e, of example_dispatch example_env "()"
         "[''clish'', ''-u'', ''-8'']" 3] s loc
  show ?thesis by (simp add: exit_status_def)
qed

text \<open>
  The claim as stated speaks of every run with both flags.  In the run of
  \<^verbatim>\<open>clish -u -8 -h\<close> the option loop reaches \<^verbatim>\<open>-h\<close> before the options are
  validated: the help text is printed, no error is reported and the exit
  status is 0.
\<close>

theorem encoding_flags_exclusive_counterexample:
  "CHR ''u'' \<in> fst ` set [(CHR ''u'', []), (CHR ''8'', []), (CHR ''h'', [])] \<and>
   CHR ''8'' \<in> fst ` set [(CHR ''u'', []), (CHR ''8'', []), (CHR ''h'', [])] \<and>
   events (main example_dispatch example_env ()
             [(CHR ''u'', []), (CHR ''8'', []), (CHR ''h'', [])]
             [''clish'', ''-u'', ''-8'', ''-h''] 4)
     = [Sigaction_SIGPIPE_SIG_IGN, Setlocale, Help 0] \<and>
   exit_status (exit_code (main example_dispatch example_env ()
             [(CHR ''u'', []), (CHR ''8'', []), (CHR ''h'', [])]
             [''clish'', ''-u'', ''-8'', ''-h''] 4)) = 0"
  by (simp add: main_def switch_opt_def example_env_def exit_status_def)

text \<open>
  C6 (dry-run hook replacement).  The hook table has one script slot.  When
  the option loop has run to its end, that slot holds the dry-run callback if
  \<^verbatim>\<open>-d\<close> was among the options and the script callback otherwise, the other
  slots being those of \<^verbatim>\<open>my_hooks\<close>.  Every library call of the run that takes
  the hook table, the creation of the shell and the dispatch loop, sees
  exactly this table, and every command that the loop dispatches is dispatched
  with this script slot: the slot is settled before the loop starts and does
  not change during the run.
\<close>

theorem script_slot_fixed:
  "(\<forall>v. getopt_loop opts (initial_vars env) = Inr v \<longrightarrow>
        hooks v = my_hooks\<lparr>script_fn := Some (selected_script opts)\<rparr>) \<and>
   set (hook_tables (events (main exec env c0 opts argv optind)))
     \<subseteq> {my_hooks\<lparr>script_fn := Some (selected_script opts)\<rparr>} \<and>
   (\<forall>st. loop_end (main exec env c0 opts argv optind) = Some st \<longrightarrow>
        snd ` set (dispatched st) \<subseteq> {Some (selected_script opts)})"
proof (cases "getopt_loop opts (initial_vars env)")
  case (Inl ex)
  obtain evs status where ex: "ex = (evs, status)" by (cases ex)
  from getopt_loop_Inl [OF Inl] early_exit_events [of ex]
  have "hook_tables evs = []" using ex by simp
  then have "hook_tables (events (main exec env c0 opts argv optind)) = []"
    by (simp add: main_exits [OF Inl [unfolded ex]] hook_tables_append hook_tables_Cons
          hook_tables_Nil)
  moreover have "loop_end (main exec env c0 opts argv optind) = None"
    by (simp add: main_exits [OF Inl [unfolded ex]])
  ultimately show ?thesis using Inl by simp
next
  case (Inr v)
  note hk = hooks_after_options [OF Inr]
  have first: "\<forall>v'. getopt_loop opts (initial_vars env) = Inr v' \<longrightarrow>
        hooks v' = my_hooks\<lparr>script_fn := Some (selected_script opts)\<rparr>"
    using hk Inr by simp
  have slot: "script_fn (hooks v) = Some (selected_script opts)"
    unfolding hk by simp
  show ?thesis
  proof (cases "utf8 v \<and> bit8 v")
    case True
    have "hook_tables (events (main exec env c0 opts argv optind)) = []"
      by (simp add: main_u8 [OF Inr True] hook_tables_append hook_tables_Cons hook_tables_Nil)
    moreover have "loop_end (main exec env c0 opts argv optind) = None"
      by (simp add: main_u8 [OF Inr True])
    ultimately show ?thesis using first by simp
  next
    case u8: False
    show ?thesis
    proof (cases "shell_new_succeeds env")
      case False
      have "hook_tables (events (main exec env c0 opts argv optind)) = [hooks v]"
        by (simp add: main_no_shell [OF Inr u8 False] hook_tables_append hook_tables_Cons
              hook_tables_Nil)
      moreover have "loop_end (main exec env c0 opts argv optind) = None"
        by (simp add: main_no_shell [OF Inr u8 False])
      ultimately show ?thesis using first hk by simp
    next
      case sh: True
      show ?thesis
      proof (cases "startup_succeeds env")
        case False
        have "hook_tables (events (main exec env c0 opts argv optind)) = [hooks v]"
          by (simp add: main_no_startup [OF Inr u8 sh False] hook_tables_append
                hook_tables_Cons hook_tables_Nil configure_shell_no_hooks)
        moreover have "loop_end (main exec env c0 opts argv optind) = None"
          by (simp add: main_no_startup [OF Inr u8 sh False])
        ultimately show ?thesis using first hk by simp
      next
        case True
        have "hook_tables (snd (push_sources env argv optind (stop_on_error v)
                 (clish_shell_new (hooks v) (open_outfd env v)
                    (stop_on_error v)))) = []"
          by (simp add: push_sources_events file_pushes_no_hooks hook_tables_Cons
                hook_tables_Nil)
        then have ev: "hook_tables (events (main exec env c0 opts argv optind))
                         = [hooks v, hooks v]"
          by (simp add: main_loop [OF Inr u8 sh True] hook_tables_append
                hook_tables_Cons hook_tables_Nil configure_shell_no_hooks)
        have "snd ` set (dispatched (clish_shell_loop exec
                (fst (push_sources env argv optind (stop_on_error v)
                        (clish_shell_new (hooks v) (open_outfd env v)
                           (stop_on_error v)))) c0))
                \<subseteq> {script_fn (hooks v)}"
          unfolding clish_shell_loop_pushed
          using dispatch_loop_script_slot [where exec = exec and hk = "hooks v"
                  and st = "\<lparr>ctx = c0, loop_ok = True, stdout_text = [], dispatched = []\<rparr>"]
          by fastforce
        then have "\<forall>st. loop_end (main exec env c0 opts argv optind) = Some st \<longrightarrow>
                snd ` set (dispatched st) \<subseteq> {Some (selected_script opts)}"
          unfolding slot by (simp add: main_loop [OF Inr u8 sh True])
        with ev first hk show ?thesis by simp
      qed
    qed
  qed
qed

theorem script_slot_fixed_witness:
  "getopt_loop [(CHR ''d'', [])] (initial_vars example_env)
     = Inr ((initial_vars example_env)
              \<lparr>hooks := my_hooks\<lparr>script_fn := Some clish_dryrun_callback\<rparr>\<rparr>) \<and>
   hook_tables (events (main example_dispatch example_env () [(CHR ''d'', [])]
                          [''clish'', ''-d'', ''b.cli''] 2))
     = [my_hooks\<lparr>script_fn := Some clish_dryrun_callback\<rparr>,
        my_hooks\<lparr>script_fn := Some clish_dryrun_callback\<rparr>] \<and>
   selected_script [(CHR ''d'', [])] = clish_dryrun_callback \<and>
   (\<exists>st. loop_end (main example_dispatch example_env () [(CHR ''d'', [])]
                      [''clish'', ''-d'', ''b.cli''] 2) = Some st \<and>
         dispatched st = [(''exit'', Some clish_dryrun_callback)])"
proof -
  let ?v = "(initial_vars example_env)
              \<lparr>hooks := my_hooks\<lparr>script_fn := Some clish_dryrun_callback\<rparr>\<rparr>"
  have parsed: "getopt_loop [(CHR ''d'', [])] (initial_vars example_env) = Inr ?v"
    by (simp add: switch_opt_def initial_vars_def)
  have u8: "\<not> (utf8 ?v \<and> bit8 ?v)" by (simp add: initial_vars_def)
  have sh: "shell_new_succeeds example_env" and st: "startup_succeeds example_env"
    by (simp_all add: example_env_def)
  note run = main_loop [OF parsed u8 sh st, of example_dispatch "()"
                          "[''clish'', ''-d'', ''b.cli'']" 2]
  have sel: "selected_script [(CHR ''d'', [])] = clish_dryrun_callback"
    by (simp add: selected_script_def)
  have ht: "hook_tables (events (main example_dispatch example_env () [(CHR ''d'', [])]
                          [''clish'', ''-d'', ''b.cli''] 2))
     = [my_hooks\<lparr>script_fn := Some clish_dryrun_callback\<rparr>,
        my_hooks\<lparr>script_fn := Some clish_dryrun_callback\<rparr>]"
    unfolding run
    by (simp add: hook_tables_append hook_tables_Cons hook_tables_Nil
          configure_shell_no_hooks push_sources_events file_pushes_no_hooks)
  have le: "loop_end (main example_dispatch example_env () [(CHR ''d'', [])]
                      [''clish'', ''-d'', ''b.cli''] 2)
              = Some (dispatch_loop example_dispatch
                        (my_hooks\<lparr>script_fn := Some clish_dryrun_callback\<rparr>) Stdout
                        [\<lparr>src_handle = File_handle ''b.cli'', src_lines = [''exit''],
                          src_stop_on_error = False\<rparr>]
                        \<lparr>ctx = (), loop_ok = True, stdout_text = [], dispatched = []\<rparr>)"
    unfolding run
    by (simp add: clish_shell_loop_pushed initial_vars_def open_outfd_def
          del: dispatch_loop.simps)
       (simp add: pushed_stack_def example_env_def del: dispatch_loop.simps)
  have d: "dispatched (dispatch_loop example_dispatch
                        (my_hooks\<lparr>script_fn := Some clish_dryrun_callback\<rparr>) Stdout
                        [\<lparr>src_handle = File_handle ''b.cli'', src_lines = [''exit''],
                          src_stop_on_error = False\<rparr>]
                        \<lparr>ctx = (), loop_ok = True, stdout_text = [], dispatched = []\<rparr>)
             = [(''exit'', Some clish_dryrun_callback)]"
    by (simp add: example_dispatch_def echo_line_def Let_def)
  from script_slot_fixed [of "[(CHR ''d'', [])]" example_env example_dispatch "()"
         "[''clish'', ''-d'', ''b.cli'']" 2] parsed ht le d sel
  show ?thesis by simp
qed

text \<open>
  C9 (quiet-mode noninterference).  The claim: running with the quiet flag and
  without it gives the same control flow and the same aggregate loop result,
  hence the same exit disposition, and only the echo differs.  The loop indeed
  does the same in both runs (\<open>quiet_noninterference_on_open_stream\<close>), but
  the source uses the stream that \<^verbatim>\<open>fopen\<close> returned without checking it.
  Where \<^verbatim>\<open>/dev/null\<close> cannot be opened, the run of \<^verbatim>\<open>clish empty.cli\<close> on an
  empty script returns 0 from \<^verbatim>\<open>main\<close>, while the run of
  \<^verbatim>\<open>clish -q empty.cli\<close>, whose loop ends in the same state with the same
  result, is killed in \<^verbatim>\<open>fclose\<close> and ends with status 139.
\<close>

theorem quiet_changes_exit_disposition:
  "without_quiet [(CHR ''q'', [])] = [] \<and>
   map_option observable
     (loop_end (main example_dispatch no_dev_null_env () [(CHR ''q'', [])]
                  [''clish'', ''-q'', ''empty.cli''] 2))
     = map_option observable
         (loop_end (main example_dispatch no_dev_null_env () []
                      [''clish'', ''-q'', ''empty.cli''] 2)) \<and>
   map_option loop_ok
     (loop_end (main example_dispatch no_dev_null_env () []
                  [''clish'', ''-q'', ''empty.cli''] 2)) = Some True \<and>
   \<not> killed (main example_dispatch no_dev_null_env () [] [''clish'', ''-q'', ''empty.cli''] 2) \<and>
   exit_status (exit_code (main example_dispatch no_dev_null_env () []
                             [''clish'', ''-q'', ''empty.cli''] 2)) = 0 \<and>
   killed (main example_dispatch no_dev_null_env () [(CHR ''q'', [])]
             [''clish'', ''-q'', ''empty.cli''] 2) \<and>
   exit_status (exit_code (main example_dispatch no_dev_null_env () [(CHR ''q'', [])]
                             [''clish'', ''-q'', ''empty.cli''] 2)) = 139"
proof -
  let ?argv = "[''clish'', ''-q'', ''empty.cli'']"
  let ?v = "(initial_vars no_dev_null_env)\<lparr>quiet := True\<rparr>"
  let ?w = "initial_vars no_dev_null_env"
  let ?src = "[\<lparr>src_handle = File_handle ''empty.cli'', src_lines = [],
                 src_stop_on_error = False\<rparr>]"
  let ?init = "\<lparr>ctx = (), loop_ok = True, stdout_text = [], dispatched = []\<rparr>"
  have wq: "without_quiet [(CHR ''q'', [])] = []" by (simp add: without_quiet_def)
  have parsed: "getopt_loop [(CHR ''q'', [])] ?w = Inr ?v" by (simp add: switch_opt_def)
  have parsed0: "getopt_loop [] ?w = Inr ?w" by simp
  have u8: "\<not> (utf8 ?v \<and> bit8 ?v)" and u80: "\<not> (utf8 ?w \<and> bit8 ?w)"
    by (simp_all add: initial_vars_def)
  have sh: "shell_new_succeeds no_dev_null_env" and st: "startup_succeeds no_dev_null_env"
    by (simp_all add: no_dev_null_env_def example_env_def)
  have nofd: "\<not> fopen_dev_null_succeeds no_dev_null_env"
    by (simp add: no_dev_null_env_def)
  have vars: "quiet ?v" "\<not> quiet ?w" "\<not> stop_on_error ?v" "\<not> stop_on_error ?w"
             "hooks ?v = my_hooks" "hooks ?w = my_hooks"
    by (simp_all add: initial_vars_def)
  have stack: "pushed_stack no_dev_null_env ?argv 2 False = ?src"
    by (simp add: pushed_stack_def no_dev_null_env_def example_env_def)
  have obs: "observable (dispatch_loop example_dispatch my_hooks
                           (open_outfd no_dev_null_env ?v) ?src ?init)
               = observable (dispatch_loop example_dispatch my_hooks
                           (open_outfd no_dev_null_env ?w) ?src ?init)"
    by (rule dispatch_loop_observable) simp
  have ok: "loop_ok (dispatch_loop example_dispatch my_hooks
                       (open_outfd no_dev_null_env ?w) ?src ?init)"
    by (simp add: example_dispatch_def echo_line_fields Let_def)
  with obs have okq: "loop_ok (dispatch_loop example_dispatch my_hooks
                       (open_outfd no_dev_null_env ?v) ?src ?init)"
    by (simp add: observable_def del: dispatch_loop.simps)
  note run = main_loop [OF parsed u8 sh st, of example_dispatch "()" ?argv 2,
                 unfolded clish_shell_loop_pushed fclose_faults_open_outfd]
  note run0 = main_loop [OF parsed0 u80 sh st, of example_dispatch "()" ?argv 2,
                 unfolded clish_shell_loop_pushed fclose_faults_open_outfd]
  show ?thesis
    unfolding run run0 using wq vars nofd stack obs ok okq
    by (simp add: killed_by_SIGSEGV_def exit_status_def del: dispatch_loop.simps)
qed

end
